theory Spec2Isabelle
  imports Main "HOL-Library.Multiset" "HOL-Library.Word"
begin

section \<open>Shared data: JSON values, exceptions, time, configuration\<close>

text \<open>
  JSON values as far as the code inspects them: null, strings and numbers with an
  integral value. \<open>JOther\<close> stands for a nested object that is not empty and for a
  number with a fractional part; both are true in Python, and no field read by the code
  accepts them. Arrays and booleans are not modelled. A decoded JSON object (a Python
  dict) is a map from keys to values.
\<close>

datatype jval = JNull | JStr string | JInt int | JOther

type_synonym jdict = "string \<rightharpoonup> jval"

text \<open>
  The exception that leaves the modelled functions uncaught: \<open>OverflowError\<close>, raised
  by date arithmetic out of range and by the date parser on numbers too large for it.
\<close>

datatype py_error = OverflowError

text \<open>
  A naive \<open>datetime\<close> as used by \<open>fastmcp_server.py\<close> is a count of microseconds
  since \<open>datetime.min\<close> (0001-01-01 00:00:00); \<open>datetime.max\<close>
  (9999-12-31 23:59:59.999999) is the largest count. A \<open>timedelta\<close> is a difference of
  such counts. \<open>timedelta(seconds=s)\<close> raises \<open>OverflowError\<close> unless the number of
  whole days it holds, \<open>s // 86400\<close>, is at most 999999999 in magnitude;
  \<open>timedelta(minutes=5)\<close> always exists. Adding a \<open>timedelta\<close> to a \<open>datetime\<close>, or
  subtracting it, raises \<open>OverflowError\<close> when the result is not between
  \<open>datetime.min\<close> and \<open>datetime.max\<close>.
\<close>

type_synonym datetime = int

definition datetime_max :: datetime where
  "datetime_max = 315537897599999999"

definition valid_datetime :: "int \<Rightarrow> bool" where
  "valid_datetime t \<longleftrightarrow> 0 \<le> t \<and> t \<le> datetime_max"

definition timedelta_minutes :: "int \<Rightarrow> int" where
  "timedelta_minutes m = m * 60000000"

definition timedelta_seconds :: "int \<Rightarrow> py_error + int" where
  "timedelta_seconds s =
     (if - 999999999 \<le> s div 86400 \<and> s div 86400 \<le> 999999999 then Inr (s * 1000000)
      else Inl OverflowError)"

definition datetime_add :: "datetime \<Rightarrow> int \<Rightarrow> py_error + datetime" where
  "datetime_add t d = (if valid_datetime (t + d) then Inr (t + d) else Inl OverflowError)"

definition datetime_sub :: "datetime \<Rightarrow> int \<Rightarrow> py_error + datetime" where
  "datetime_sub t d = (if valid_datetime (t - d) then Inr (t - d) else Inl OverflowError)"

text \<open>The part of \<open>Config\<close> that the token life cycle reads.\<close>

record Config =
  CLIENT_ID :: string
  CLIENT_SECRET :: string
  REDIRECT_URI :: string
  GHL_AUTH_URL :: string
  GHL_TOKEN_URL :: string
  SCOPES :: "string list"

section \<open>Token store (\<open>fastmcp_server.py\<close>)\<close>

record OAuthToken =
  access_token :: string
  refresh_token :: string
  token_type :: string
  expires_in :: int
  expires_at :: datetime
  scope :: string
  location_id :: "string option"
  user_id :: "string option"

text \<open>\<open>TokenStore._tokens\<close>: a dict from user id to token.\<close>

type_synonym TokenStore = "string \<rightharpoonup> OAuthToken"

text \<open>
  A form-encoded POST, and what comes back from \<open>client.post\<close>,
  \<open>response.raise_for_status()\<close> and \<open>response.json()\<close> taken together: the
  transport raises, the status is not a success, the body is not a JSON object, or a
  JSON object is decoded.
\<close>

record post_request =
  post_url :: string
  post_data :: "(string \<times> string) list"

datatype post_result =
    TransportError
  | HTTPStatusError nat
  | DecodeError
  | JSONBody jdict

definition store_token :: "string \<Rightarrow> OAuthToken \<Rightarrow> TokenStore \<Rightarrow> TokenStore" where
  "store_token uid token tokens = tokens(uid \<mapsto> token)"

definition get_token :: "string \<Rightarrow> TokenStore \<Rightarrow> OAuthToken option" where
  "get_token uid tokens = tokens uid"

definition refresh_request :: "Config \<Rightarrow> OAuthToken \<Rightarrow> post_request" where
  "refresh_request cfg token =
     \<lparr> post_url = GHL_TOKEN_URL cfg,
       post_data = [(''grant_type'', ''refresh_token''),
                    (''refresh_token'', refresh_token token),
                    (''client_id'', CLIENT_ID cfg),
                    (''client_secret'', CLIENT_SECRET cfg)] \<rparr>"

text \<open>
  \<open>token_data[k]\<close> raises KeyError on a missing key; the \<open>str\<close> fields of the
  pydantic model reject anything but a string, and \<open>timedelta(seconds=...)\<close> with the
  \<open>int\<close> field anything but an integral number; \<open>token_data.get(k, default)\<close> falls
  back to the default only when the key is missing. \<open>None\<close> is the raised exception.
\<close>

definition required_str :: "jdict \<Rightarrow> string \<Rightarrow> string option" where
  "required_str d k = (case d k of Some (JStr s) \<Rightarrow> Some s | _ \<Rightarrow> None)"

definition required_int :: "jdict \<Rightarrow> string \<Rightarrow> int option" where
  "required_int d k = (case d k of Some (JInt n) \<Rightarrow> Some n | _ \<Rightarrow> None)"

definition get_str_default :: "jdict \<Rightarrow> string \<Rightarrow> string \<Rightarrow> string option" where
  "get_str_default d k dflt =
     (case d k of None \<Rightarrow> Some dflt | Some (JStr s) \<Rightarrow> Some s | Some _ \<Rightarrow> None)"

text \<open>
  \<open>datetime.now() + timedelta(seconds=e)\<close> inside the \<open>try\<close> of the refresh path:
  \<open>None\<close> when either the \<open>timedelta\<close> or the sum raises \<open>OverflowError\<close>.
\<close>

definition expiry :: "datetime \<Rightarrow> int \<Rightarrow> datetime option" where
  "expiry now e =
     (case timedelta_seconds e of
        Inl err \<Rightarrow> None
      | Inr delta \<Rightarrow> (case datetime_add now delta of Inl err \<Rightarrow> None | Inr t \<Rightarrow> Some t))"

text \<open>
  The construction \<open>OAuthToken(access_token=..., ...)\<close> in the refresh path; \<open>now\<close> is
  the value of \<open>datetime.now()\<close> at that moment. \<open>token_type\<close> takes its default.
  The arguments are evaluated in the order written, and any exception among them is
  caught by the \<open>except Exception\<close> around the construction: the value \<open>None\<close>.
\<close>

definition refreshed_token :: "OAuthToken \<Rightarrow> datetime \<Rightarrow> jdict \<Rightarrow> OAuthToken option" where
  "refreshed_token token now token_data =
     (case required_str token_data ''access_token'' of
        None \<Rightarrow> None
      | Some a \<Rightarrow>
     (case get_str_default token_data ''refresh_token'' (refresh_token token) of
        None \<Rightarrow> None
      | Some r \<Rightarrow>
     (case required_int token_data ''expires_in'' of
        None \<Rightarrow> None
      | Some e \<Rightarrow>
     (case expiry now e of
        None \<Rightarrow> None
      | Some t \<Rightarrow>
     (case get_str_default token_data ''scope'' (scope token) of
        None \<Rightarrow> None
      | Some s \<Rightarrow>
          Some \<lparr> access_token = a,
                 refresh_token = r,
                 token_type = ''Bearer'',
                 expires_in = e,
                 expires_at = t,
                 scope = s,
                 location_id = location_id token,
                 user_id = user_id token \<rparr>)))))"

text \<open>
  \<open>TokenStore.refresh_token\<close>. The environment is the token endpoint \<open>post\<close> and the
  two readings of the clock: \<open>now_check\<close> at the validity test and \<open>now_receipt\<close>
  when the new token is built. The result is what the call yields, the store afterwards,
  and the POSTs that were sent, in order. The call yields \<open>Inr\<close> of the returned token
  (\<open>None\<close> for Python's \<open>None\<close>), or \<open>Inl\<close> of the exception it raises: the
  subtraction \<open>token.expires_at - timedelta(minutes=5)\<close> of the validity test stands
  before the \<open>try\<close>, so its \<open>OverflowError\<close> reaches the caller.
\<close>

definition TokenStore_refresh_token ::
  "Config \<Rightarrow> (post_request \<Rightarrow> post_result) \<Rightarrow> datetime \<Rightarrow> datetime \<Rightarrow>
   string \<Rightarrow> TokenStore \<Rightarrow> (py_error + OAuthToken option) \<times> TokenStore \<times> post_request list" where
  "TokenStore_refresh_token cfg post now_check now_receipt uid tokens =
     (case get_token uid tokens of
        None \<Rightarrow> (Inr None, tokens, [])
      | Some token \<Rightarrow>
          (case datetime_sub (expires_at token) (timedelta_minutes 5) of
             Inl err \<Rightarrow> (Inl err, tokens, [])
           | Inr limit \<Rightarrow>
               if now_check < limit then (Inr (Some token), tokens, [])
               else
                 let req = refresh_request cfg token in
                 (case post req of
                    JSONBody token_data \<Rightarrow>
                      (case refreshed_token token now_receipt token_data of
                         Some new_token \<Rightarrow>
                           (Inr (Some new_token), store_token uid new_token tokens, [req])
                       | None \<Rightarrow> (Inr None, tokens, [req]))
                  | _ \<Rightarrow> (Inr None, tokens, [req]))))"

text \<open>
  A decoded body from which the refresh path cannot build a token: a required field is
  missing or of the wrong type, or an optional field is present with the wrong type.
\<close>

definition malformed_body :: "jdict \<Rightarrow> bool" where
  "malformed_body d =
     (required_str d ''access_token'' = None \<or> required_int d ''expires_in'' = None \<or>
      (case d ''refresh_token'' of None \<Rightarrow> False | Some (JStr _) \<Rightarrow> False | Some _ \<Rightarrow> True) \<or>
      (case d ''scope'' of None \<Rightarrow> False | Some (JStr _) \<Rightarrow> False | Some _ \<Rightarrow> True))"

text \<open>
  A decoded body whose lifetime cannot be turned into an expiry time: \<open>expires_in\<close> is
  an integer, but it is too large for a \<open>timedelta\<close>, or the moment of receipt plus
  that many seconds is not between \<open>datetime.min\<close> and \<open>datetime.max\<close>.
\<close>

definition lifetime_overflows :: "datetime \<Rightarrow> jdict \<Rightarrow> bool" where
  "lifetime_overflows now d =
     (case d ''expires_in'' of
        Some (JInt e) \<Rightarrow>
          \<not> (- 999999999 \<le> e div 86400 \<and> e div 86400 \<le> 999999999
             \<and> 0 \<le> now + e * 1000000 \<and> now + e * 1000000 \<le> datetime_max)
      | _ \<Rightarrow> False)"

subsection \<open>Sample configuration, credentials, clock and issuers\<close>

definition ex_cfg :: Config where
  "ex_cfg = \<lparr> CLIENT_ID = ''cid'', CLIENT_SECRET = ''sec'',
              REDIRECT_URI = ''http://localhost:8000/oauth/callback'',
              GHL_AUTH_URL = ''https://ghl.test/oauth/authorize'',
              GHL_TOKEN_URL = ''https://ghl.test/oauth/token'',
              SCOPES = [''contacts.readonly'', ''contacts.write''] \<rparr>"

definition ex_token :: "datetime \<Rightarrow> OAuthToken" where
  "ex_token exp = \<lparr> access_token = ''a0'', refresh_token = ''r0'', token_type = ''Bearer'',
       expires_in = 3600, expires_at = exp, scope = ''contacts.readonly'',
       location_id = Some ''loc1'', user_id = Some ''u1'' \<rparr>"

text \<open>The clock reading 2026-11-04 12:00:00, in microseconds since \<open>datetime.min\<close>.\<close>

definition ex_now :: datetime where
  "ex_now = 63929390400000000"

text \<open>An issuer that answers every POST with a new access token and no refresh token.\<close>

definition ex_issuer :: "post_request \<Rightarrow> post_result" where
  "ex_issuer req = JSONBody [''access_token'' \<mapsto> JStr ''a1'', ''expires_in'' \<mapsto> JInt 3600]"

text \<open>An issuer that rejects every POST.\<close>

definition ex_issuer_down :: "post_request \<Rightarrow> post_result" where
  "ex_issuer_down req = HTTPStatusError 401"

text \<open>An issuer whose tokens live \<open>10^12\<close> seconds, past the year 9999.\<close>

definition ex_issuer_forever :: "post_request \<Rightarrow> post_result" where
  "ex_issuer_forever req =
     JSONBody [''access_token'' \<mapsto> JStr ''a1'', ''expires_in'' \<mapsto> JInt 1000000000000]"

text \<open>An issuer whose tokens expired long ago: their lifetime is negative.\<close>

definition ex_issuer_past :: "post_request \<Rightarrow> post_result" where
  "ex_issuer_past req =
     JSONBody [''access_token'' \<mapsto> JStr ''a1'', ''expires_in'' \<mapsto> JInt (- 63929390280)]"

section \<open>Paginated date-filtered fetcher (\<open>scripts/fetch_messages_with_date_filter.py\<close>)\<close>

text \<open>
  A Python \<open>datetime\<close> in the fetcher is naive (wall-clock time only) or aware
  (wall-clock time and UTC offset). Times and offsets are microseconds, counted from
  \<open>datetime.min\<close>. Aware values compare by their UTC instant.
\<close>

datatype pydatetime = Naive int | Aware int int

text \<open>\<open>pytz.UTC.localize(d)\<close> where \<open>d.tzinfo is None\<close>, and \<open>d\<close> itself otherwise.\<close>

fun ensure_utc :: "pydatetime \<Rightarrow> pydatetime" where
  "ensure_utc (Naive t) = Aware t 0"
| "ensure_utc (Aware t off) = Aware t off"

fun instant :: "pydatetime \<Rightarrow> int" where
  "instant (Naive t) = t"
| "instant (Aware t off) = t - off"

definition dt_less :: "pydatetime \<Rightarrow> pydatetime \<Rightarrow> bool" where
  "dt_less a b = (instant a < instant b)"

text \<open>\<open>datetime.min.replace(tzinfo=pytz.UTC)\<close>.\<close>

definition datetime_min_utc :: pydatetime where
  "datetime_min_utc = Aware 0 0"

text \<open>A message is the dict decoded from the API's JSON.\<close>

type_synonym message = jdict

text \<open>
  Python's \<open>d.get(k)\<close>, which gives \<open>None\<close> for a missing key, the truth value of
  a JSON value, and \<open>a or b\<close>.
\<close>

definition dict_get :: "jdict \<Rightarrow> string \<Rightarrow> jval" where
  "dict_get d k = (case d k of None \<Rightarrow> JNull | Some v \<Rightarrow> v)"

fun truthy :: "jval \<Rightarrow> bool" where
  "truthy JNull = False"
| "truthy (JStr s) = (s \<noteq> [])"
| "truthy (JInt n) = (n \<noteq> 0)"
| "truthy JOther = True"

definition py_or :: "jval \<Rightarrow> jval \<Rightarrow> jval" where
  "py_or a b = (if truthy a then a else b)"

text \<open>
  What \<open>dateutil.parser.parse\<close> does with a string: it returns a datetime, it raises
  \<open>ParserError\<close> (a \<open>ValueError\<close>) on a string it cannot read as a date, or it raises
  \<open>OverflowError\<close> on a string of digits too large for a C integer, such as a count
  of epoch milliseconds. The parser is a parameter of the model.
\<close>

datatype parser_result = Parsed pydatetime | ParserError | ParserOverflow

type_synonym date_parser = "string \<Rightarrow> parser_result"

text \<open>
  \<open>_parse_message_date\<close>. On a value that is not a string the parser raises
  \<open>TypeError\<close>. The \<open>except (ValueError, TypeError)\<close> clause catches that and the
  \<open>ParserError\<close>, and gives \<open>datetime.min\<close> in UTC; it does not catch
  \<open>OverflowError\<close>, which leaves the function: the value \<open>Inl OverflowError\<close>.
\<close>

definition parse_message_date :: "date_parser \<Rightarrow> message \<Rightarrow> py_error + pydatetime" where
  "parse_message_date parse message =
     (let date_str = py_or (dict_get message ''dateAdded'') (dict_get message ''date'') in
      if \<not> truthy date_str then Inr datetime_min_utc
      else (case date_str of
              JStr s \<Rightarrow> (case parse s of
                          Parsed dt \<Rightarrow> Inr (ensure_utc dt)
                        | ParserError \<Rightarrow> Inr datetime_min_utc
                        | ParserOverflow \<Rightarrow> Inl OverflowError)
            | _ \<Rightarrow> Inr datetime_min_utc))"

text \<open>\<open>start_date and message_date < start_date\<close>: an absent bound never holds.\<close>

definition before_start :: "pydatetime option \<Rightarrow> pydatetime \<Rightarrow> bool" where
  "before_start start_date message_date =
     (case start_date of None \<Rightarrow> False | Some s \<Rightarrow> dt_less message_date s)"

definition after_end :: "pydatetime option \<Rightarrow> pydatetime \<Rightarrow> bool" where
  "after_end end_date message_date =
     (case end_date of None \<Rightarrow> False | Some e \<Rightarrow> dt_less e message_date)"

definition is_within_date_range ::
  "pydatetime \<Rightarrow> pydatetime option \<Rightarrow> pydatetime option \<Rightarrow> bool" where
  "is_within_date_range message_date start_date end_date =
     (if before_start start_date message_date then False
      else if after_end end_date message_date then False
      else True)"

text \<open>
  The fetcher object, one GET request, and what \<open>requests.get\<close>,
  \<open>raise_for_status\<close> and \<open>response.json()\<close> yield together. The three failures
  are the \<open>requests.exceptions.RequestException\<close>s that the page fetch catches.
\<close>

record GHLMessageFetcher =
  api_key :: string
  fetcher_location_id :: string
  base_url :: string

record get_request =
  get_url :: string
  get_headers :: "(string \<times> string) list"
  param_limit :: int
  param_lastMessageId :: "string option"
  param_type :: "string option"

record page_data =
  data_messages :: "message list"
  data_lastMessageId :: "string option"
  data_nextPage :: bool

datatype get_result =
    ConnectionFailed
  | HTTPError nat
  | JSONDecodeError
  | PageData page_data

record pagination_info =
  lastMessageId :: "string option"
  nextPage :: bool

text \<open>\<open>','.join(message_types)\<close>.\<close>

fun join :: "string \<Rightarrow> string list \<Rightarrow> string" where
  "join sep [] = []"
| "join sep [x] = x"
| "join sep (x # y # ys) = x @ sep @ join sep (y # ys)"

definition headers :: "GHLMessageFetcher \<Rightarrow> (string \<times> string) list" where
  "headers self = [(''Authorization'', ''Bearer '' @ api_key self),
                   (''Version'', ''2021-07-28''),
                   (''Content-Type'', ''application/json'')]"

definition page_request ::
  "GHLMessageFetcher \<Rightarrow> string \<Rightarrow> string option \<Rightarrow> int \<Rightarrow> string list option \<Rightarrow> get_request" where
  "page_request self conversation_id last_message_id limit message_types =
     \<lparr> get_url = base_url self @ ''/conversations/'' @ conversation_id @ ''/messages'',
       get_headers = headers self,
       param_limit = limit,
       param_lastMessageId =
         (case last_message_id of
            None \<Rightarrow> None
          | Some i \<Rightarrow> if i = [] then None else Some i),
       param_type =
         (case message_types of
            None \<Rightarrow> None
          | Some ts \<Rightarrow> if ts = [] then None else Some (join '','' ts)) \<rparr>"

text \<open>
  \<open>_fetch_message_page\<close>, given the answer \<open>get\<close> of the remote to a request. On a
  caught exception it returns \<open>[], {}\<close>; the empty dict is \<open>None\<close> here.
\<close>

definition fetch_message_page ::
  "GHLMessageFetcher \<Rightarrow> (get_request \<Rightarrow> get_result) \<Rightarrow> string \<Rightarrow> string option \<Rightarrow> int \<Rightarrow>
   string list option \<Rightarrow> message list \<times> pagination_info option" where
  "fetch_message_page self get conversation_id last_message_id limit message_types =
     (case get (page_request self conversation_id last_message_id limit message_types) of
        PageData data \<Rightarrow>
          (data_messages data,
           Some \<lparr> lastMessageId = data_lastMessageId data, nextPage = data_nextPage data \<rparr>)
      | _ \<Rightarrow> ([], None))"

text \<open>
  The \<open>for message in page_messages\<close> loop: the retained messages so far go in, and
  come out extended, together with \<open>reached_date_limit\<close>. An exception raised while
  a message's date is parsed ends the loop and is passed on.
\<close>

fun process_page ::
  "date_parser \<Rightarrow> pydatetime option \<Rightarrow> pydatetime option \<Rightarrow>
   message list \<Rightarrow> message list \<Rightarrow> py_error + message list \<times> bool" where
  "process_page parse start_date end_date [] filtered_messages = Inr (filtered_messages, False)"
| "process_page parse start_date end_date (message # rest) filtered_messages =
     (case parse_message_date parse message of
        Inl err \<Rightarrow> Inl err
      | Inr message_date \<Rightarrow>
          if before_start start_date message_date then Inr (filtered_messages, True)
          else if is_within_date_range message_date start_date end_date
            then process_page parse start_date end_date rest (filtered_messages @ [message])
            else process_page parse start_date end_date rest filtered_messages)"

text \<open>
  The arguments of one fetch call, and the variables of its \<open>while\<close> loop.
  \<open>exchanges\<close> is not a program variable: it records each request sent and the
  answer received, in order.
\<close>

record fetch_args =
  conversation_id :: string
  start_date :: "pydatetime option"
  end_date :: "pydatetime option"
  message_types :: "string list option"
  limit_per_page :: int

record fetch_state =
  filtered_messages :: "message list"
  last_message_id :: "string option"
  has_more :: bool
  total_fetched :: nat
  pages_fetched :: nat
  reached_date_limit :: bool
  exchanges :: "(get_request \<times> get_result) list"

definition initial_state :: fetch_state where
  "initial_state =
     \<lparr> filtered_messages = [], last_message_id = None, has_more = True, total_fetched = 0,
       pages_fetched = 0, reached_date_limit = False, exchanges = [] \<rparr>"

text \<open>
  The remote: its answer to a request may depend on how many requests of this fetch
  came before. Each pass of the loop that does not break adds one to
  \<open>pages_fetched\<close>, so that count is the number of requests sent so far.
\<close>

type_synonym remote = "nat \<Rightarrow> get_request \<Rightarrow> get_result"

definition next_request :: "GHLMessageFetcher \<Rightarrow> fetch_args \<Rightarrow> fetch_state \<Rightarrow> get_request" where
  "next_request self args st =
     page_request self (conversation_id args) (last_message_id st) (limit_per_page args)
       (message_types args)"

definition next_page ::
  "GHLMessageFetcher \<Rightarrow> remote \<Rightarrow> fetch_args \<Rightarrow> fetch_state \<Rightarrow>
   message list \<times> pagination_info option" where
  "next_page self remote args st =
     fetch_message_page self (remote (pages_fetched st)) (conversation_id args)
       (last_message_id st) (limit_per_page args) (message_types args)"

definition record_exchange ::
  "GHLMessageFetcher \<Rightarrow> remote \<Rightarrow> fetch_args \<Rightarrow> fetch_state \<Rightarrow> fetch_state" where
  "record_exchange self remote args st =
     st\<lparr> exchanges := exchanges st @
           [(next_request self args st, remote (pages_fetched st) (next_request self args st))] \<rparr>"

text \<open>
  One pass of the \<open>while\<close> body after the \<open>break\<close> test, for a page that is not
  empty: process the page, then update the pagination variables. An exception from the
  page ends the pass.
\<close>

definition loop_body ::
  "date_parser \<Rightarrow> fetch_args \<Rightarrow> message list \<Rightarrow> pagination_info option \<Rightarrow>
   fetch_state \<Rightarrow> py_error + fetch_state" where
  "loop_body parse args page_messages next_page_info st =
     (case process_page parse (start_date args) (end_date args) page_messages
             (filtered_messages st) of
        Inl err \<Rightarrow> Inl err
      | Inr (filtered, reached) \<Rightarrow>
          Inr (st\<lparr> filtered_messages := filtered,
                   reached_date_limit := reached,
                   pages_fetched := pages_fetched st + 1,
                   total_fetched := total_fetched st + length page_messages,
                   has_more := (case next_page_info of None \<Rightarrow> False | Some i \<Rightarrow> nextPage i),
                   last_message_id :=
                     (case next_page_info of None \<Rightarrow> None | Some i \<Rightarrow> lastMessageId i) \<rparr>))"

text \<open>
  The \<open>while has_more and not reached_date_limit\<close> loop. It need not end: a
  remote that keeps serving pages that are not empty keeps it running, which is the
  value \<open>None\<close>. When it ends, it ends with the loop variables (\<open>Inr\<close>) or with the
  exception that a page raised (\<open>Inl\<close>).
\<close>

partial_function (option) fetch_loop ::
  "GHLMessageFetcher \<Rightarrow> remote \<Rightarrow> date_parser \<Rightarrow> fetch_args \<Rightarrow>
   fetch_state \<Rightarrow> (py_error + fetch_state) option" where
  "fetch_loop self remote parse args st =
     (if has_more st \<and> \<not> reached_date_limit st then
        (case next_page self remote args st of
           (page_messages, next_page_info) \<Rightarrow>
             if page_messages = [] then Some (Inr (record_exchange self remote args st))
             else (case loop_body parse args page_messages next_page_info
                          (record_exchange self remote args st) of
                     Inl err \<Rightarrow> Some (Inl err)
                   | Inr st' \<Rightarrow> fetch_loop self remote parse args st'))
      else Some (Inr st))"

record metadata =
  meta_total_fetched :: nat
  meta_total_filtered :: nat
  meta_pages_fetched :: nat
  meta_conversation_id :: string
  meta_start_date :: "pydatetime option"
  meta_end_date :: "pydatetime option"
  meta_message_types :: "string list option"

text \<open>
  \<open>filtered_messages.sort(key=lambda m: self._parse_message_date(m))\<close>: the keys are
  computed first, one per message and in order, and an exception among them is passed
  on; then the messages are sorted by key. Python's sort is stable, as is \<open>sort_key\<close>,
  and aware datetimes compare by their UTC instant.
\<close>

fun sort_keys :: "date_parser \<Rightarrow> message list \<Rightarrow> py_error + pydatetime list" where
  "sort_keys parse [] = Inr []"
| "sort_keys parse (m # ms) =
     (case parse_message_date parse m of
        Inl err \<Rightarrow> Inl err
      | Inr k \<Rightarrow> (case sort_keys parse ms of Inl err \<Rightarrow> Inl err | Inr ks \<Rightarrow> Inr (k # ks)))"

definition sort_by_date :: "date_parser \<Rightarrow> message list \<Rightarrow> py_error + message list" where
  "sort_by_date parse ms =
     (case sort_keys parse ms of
        Inl err \<Rightarrow> Inl err
      | Inr ks \<Rightarrow> Inr (map snd (sort_key (\<lambda>(k, m). instant k) (zip ks ms))))"

text \<open>
  \<open>fetch_conversation_messages_with_date_filter\<close>: normalise the bounds, run the
  loop, sort the retained messages by date, and build the metadata, which holds the
  bounds themselves where the code stores their ISO text. The third component of the
  result is the record of the requests sent. The call does not return (\<open>None\<close>), raises
  (\<open>Inl\<close>) or returns (\<open>Inr\<close>).
\<close>

definition normalized_args :: "fetch_args \<Rightarrow> fetch_args" where
  "normalized_args args =
     args\<lparr> start_date := map_option ensure_utc (start_date args),
           end_date := map_option ensure_utc (end_date args) \<rparr>"

definition finish ::
  "date_parser \<Rightarrow> fetch_args \<Rightarrow> fetch_state \<Rightarrow>
   py_error + message list \<times> metadata \<times> (get_request \<times> get_result) list" where
  "finish parse args st =
     (case sort_by_date parse (filtered_messages st) of
        Inl err \<Rightarrow> Inl err
      | Inr sorted_messages \<Rightarrow>
          Inr (sorted_messages,
               \<lparr> meta_total_fetched = total_fetched st,
                 meta_total_filtered = length sorted_messages,
                 meta_pages_fetched = pages_fetched st,
                 meta_conversation_id = conversation_id args,
                 meta_start_date = start_date args,
                 meta_end_date = end_date args,
                 meta_message_types = message_types args \<rparr>,
               exchanges st))"

definition fetch_conversation_messages_with_date_filter ::
  "GHLMessageFetcher \<Rightarrow> remote \<Rightarrow> date_parser \<Rightarrow> fetch_args \<Rightarrow>
   (py_error + message list \<times> metadata \<times> (get_request \<times> get_result) list) option" where
  "fetch_conversation_messages_with_date_filter self remote parse args =
     (case fetch_loop self remote parse (normalized_args args) initial_state of
        None \<Rightarrow> None
      | Some (Inl err) \<Rightarrow> Some (Inl err)
      | Some (Inr st) \<Rightarrow> Some (finish parse (normalized_args args) st))"

subsection \<open>Vocabulary for the fetcher's properties\<close>

text \<open>
  Whether a message's date is parsed without an exception, and the date it then has
  (for a message whose date raises, \<open>date_of\<close> is a placeholder that no property of a
  returning fetch depends on).
\<close>

definition dated :: "date_parser \<Rightarrow> message \<Rightarrow> bool" where
  "dated parse m = (case parse_message_date parse m of Inl err \<Rightarrow> False | Inr d \<Rightarrow> True)"

definition date_of :: "date_parser \<Rightarrow> message \<Rightarrow> pydatetime" where
  "date_of parse m = (case parse_message_date parse m of Inl err \<Rightarrow> datetime_min_utc | Inr d \<Rightarrow> d)"

text \<open>
  A message is older than the start bound, or lies within the bounds, as the loop tests
  it: on its parsed date.
\<close>

definition older :: "date_parser \<Rightarrow> pydatetime option \<Rightarrow> message \<Rightarrow> bool" where
  "older parse start m =
     (case parse_message_date parse m of Inl err \<Rightarrow> False | Inr d \<Rightarrow> before_start start d)"

definition in_range ::
  "date_parser \<Rightarrow> pydatetime option \<Rightarrow> pydatetime option \<Rightarrow> message \<Rightarrow> bool" where
  "in_range parse start end m =
     (case parse_message_date parse m of
        Inl err \<Rightarrow> False
      | Inr d \<Rightarrow> is_within_date_range d start end)"

text \<open>Messages in ascending order of the UTC instant of their date; the sort is stable.\<close>

definition by_date :: "date_parser \<Rightarrow> message list \<Rightarrow> message list" where
  "by_date parse ms = sort_key (\<lambda>m. instant (date_of parse m)) ms"

text \<open>
  The page that one exchange delivered to the loop, and the records the loop iterated
  over: those served, in order, up to the first one older than the start bound.
\<close>

fun served_page :: "get_request \<times> get_result \<Rightarrow> message list" where
  "served_page (req, PageData data) = data_messages data"
| "served_page (req, _) = []"

definition scanned ::
  "date_parser \<Rightarrow> pydatetime option \<Rightarrow> (get_request \<times> get_result) list \<Rightarrow> message list" where
  "scanned parse start ex = takeWhile (\<lambda>m. \<not> older parse start m) (concat (map served_page ex))"

fun request_failed :: "get_result \<Rightarrow> bool" where
  "request_failed (PageData d) = False"
| "request_failed _ = True"


definition date_overflows :: "date_parser \<Rightarrow> message \<Rightarrow> bool" where
  "date_overflows parse m =
     (case py_or (dict_get m ''dateAdded'') (dict_get m ''date'') of
        JStr s \<Rightarrow> s \<noteq> [] \<and> parse s = ParserOverflow
      | _ \<Rightarrow> False)"

text \<open>
  A message matches the type filter when no filter is given or its \<open>type\<close> is one of
  the listed types. The fetcher has no such test; this is the specification's notion.
\<close>

definition matches_type_filter :: "string list option \<Rightarrow> message \<Rightarrow> bool" where
  "matches_type_filter types m =
     (case types of
        None \<Rightarrow> True
      | Some ts \<Rightarrow> ts = [] \<or> (\<exists>t \<in> set ts. dict_get m ''type'' = JStr t))"

text \<open>
  The remote served its records newest first: over the pages of a record of exchanges,
  in order, no record is later than one before it.
\<close>

definition newest_first :: "date_parser \<Rightarrow> (get_request \<times> get_result) list \<Rightarrow> bool" where
  "newest_first parse ex =
     sorted_wrt (\<lambda>a b. instant (date_of parse b) \<le> instant (date_of parse a))
       (concat (map served_page ex))"

text \<open>
  A record of exchanges is the conversation of one fetch with the remote: request
  number \<open>n\<close> is the page request for the conversation, with the page limit and the
  type filter of the call and with the cursor that the answer before it carried (none
  for the first), and it is paired with the remote's answer to it.
\<close>

fun next_cursor :: "get_result \<Rightarrow> string option" where
  "next_cursor (PageData d) = data_lastMessageId d"
| "next_cursor _ = None"

fun conversation_log ::
  "GHLMessageFetcher \<Rightarrow> remote \<Rightarrow> fetch_args \<Rightarrow> nat \<Rightarrow> string option \<Rightarrow>
   (get_request \<times> get_result) list \<Rightarrow> bool" where
  "conversation_log self remote args n cursor [] = True"
| "conversation_log self remote args n cursor (x # rest) =
     (fst x = page_request self (conversation_id args) cursor (limit_per_page args)
                (message_types args)
      \<and> snd x = remote n (fst x)
      \<and> conversation_log self remote args (Suc n) (next_cursor (snd x)) rest)"

fun cursor_after :: "string option \<Rightarrow> (get_request \<times> get_result) list \<Rightarrow> string option" where
  "cursor_after cursor [] = cursor"
| "cursor_after cursor (x # rest) = cursor_after (next_cursor (snd x)) rest"

text \<open>
  The loop invariant on dates: the retained messages are the scanned ones within the
  bounds; while the date limit is not reached no served record is older than the start
  bound; and no page but the last holds such a record. And the loop invariant on
  requests: the exchanges so far are the conversation with the remote, one per page
  counted, and the cursor variable is the one the last answer carried.
\<close>

definition loop_inv :: "date_parser \<Rightarrow> fetch_args \<Rightarrow> fetch_state \<Rightarrow> bool" where
  "loop_inv parse args st \<longleftrightarrow>
     filtered_messages st
       = filter (in_range parse (start_date args) (end_date args))
           (scanned parse (start_date args) (exchanges st))
     \<and> (\<not> reached_date_limit st \<longrightarrow>
          (\<forall>m \<in> set (concat (map served_page (exchanges st))). \<not> older parse (start_date args) m))
     \<and> (\<forall>p \<in> set (butlast (map served_page (exchanges st))).
          \<forall>m \<in> set p. \<not> older parse (start_date args) m)"

definition log_inv :: "GHLMessageFetcher \<Rightarrow> remote \<Rightarrow> fetch_args \<Rightarrow> fetch_state \<Rightarrow> bool" where
  "log_inv self remote args st \<longleftrightarrow>
     conversation_log self remote args 0 None (exchanges st)
     \<and> length (exchanges st) = pages_fetched st
     \<and> last_message_id st = cursor_after None (exchanges st)"

text \<open>
  One full pass of the loop on a page that is not empty (the state stays as it is where
  the page raises), the condition under which the loop makes such a pass and goes on
  to test its condition again (the loop condition holds, the page is not empty and is
  processed without an exception), and the loop variables after \<open>k\<close> passes from the
  start.
\<close>

definition loop_step ::
  "GHLMessageFetcher \<Rightarrow> remote \<Rightarrow> date_parser \<Rightarrow> fetch_args \<Rightarrow> fetch_state \<Rightarrow> fetch_state" where
  "loop_step self remote parse args st =
     (case next_page self remote args st of
        (page_messages, next_page_info) \<Rightarrow>
          (case loop_body parse args page_messages next_page_info
                  (record_exchange self remote args st) of
             Inl err \<Rightarrow> st
           | Inr st' \<Rightarrow> st'))"

definition continues ::
  "GHLMessageFetcher \<Rightarrow> remote \<Rightarrow> date_parser \<Rightarrow> fetch_args \<Rightarrow> fetch_state \<Rightarrow> bool" where
  "continues self remote parse args st \<longleftrightarrow>
     has_more st \<and> \<not> reached_date_limit st \<and> fst (next_page self remote args st) \<noteq> []
     \<and> \<not> isl (loop_body parse args (fst (next_page self remote args st))
                 (snd (next_page self remote args st)) (record_exchange self remote args st))"

definition state_after ::
  "GHLMessageFetcher \<Rightarrow> remote \<Rightarrow> date_parser \<Rightarrow> fetch_args \<Rightarrow> nat \<Rightarrow> fetch_state" where
  "state_after self remote parse args k = (loop_step self remote parse args ^^ k) initial_state"

subsection \<open>Sample conversations and remotes\<close>

text \<open>
  A date parser that knows five instants, raises \<open>OverflowError\<close> on a count of epoch
  milliseconds and rejects every other string; and messages dated by their id.
\<close>

definition ex_parse :: date_parser where
  "ex_parse s = (if s = ''t10'' then Parsed (Naive 10) else if s = ''t9'' then Parsed (Naive 9)
     else if s = ''t8'' then Parsed (Naive 8) else if s = ''t7'' then Parsed (Naive 7)
     else if s = ''t6'' then Parsed (Naive 6)
     else if s = ''1730000000000'' then ParserOverflow else ParserError)"

definition ex_msg :: "string \<Rightarrow> string \<Rightarrow> message" where
  "ex_msg t ty = [''id'' \<mapsto> JStr t, ''dateAdded'' \<mapsto> JStr t, ''type'' \<mapsto> JStr ty]"


definition ex_epoch_msg :: message where
  "ex_epoch_msg = [''id'' \<mapsto> JStr ''y'', ''dateAdded'' \<mapsto> JStr ''1730000000000'']"

definition ex_fetcher :: GHLMessageFetcher where
  "ex_fetcher = \<lparr> api_key = ''key'', fetcher_location_id = ''loc'', base_url = ''https://ghl.test'' \<rparr>"

definition ex_args :: fetch_args where
  "ex_args = \<lparr> conversation_id = ''c1'', start_date = Some (Naive 8), end_date = None,
       message_types = Some [''TYPE_EMAIL''], limit_per_page = 100 \<rparr>"


definition ex_page0 :: page_data where
  "ex_page0 = \<lparr> data_messages = [ex_msg ''t10'' ''TYPE_EMAIL'', ex_msg ''t9'' ''TYPE_SMS''],
                data_lastMessageId = Some ''t9'', data_nextPage = True \<rparr>"

definition ex_page1 :: page_data where
  "ex_page1 = \<lparr> data_messages = [ex_msg ''t8'' ''TYPE_EMAIL'', ex_msg ''t7'' ''TYPE_EMAIL'',
                                  ex_msg ''t6'' ''TYPE_EMAIL''],
                data_lastMessageId = Some ''t6'', data_nextPage = True \<rparr>"

definition ex_empty_page :: page_data where
  "ex_empty_page = \<lparr> data_messages = [], data_lastMessageId = None, data_nextPage = True \<rparr>"


definition ex_page_epoch :: page_data where
  "ex_page_epoch =
     \<lparr> data_messages = [ex_msg ''t10'' ''TYPE_EMAIL'', ex_epoch_msg, ex_msg ''t9'' ''TYPE_EMAIL''],
       data_lastMessageId = Some ''t9'', data_nextPage = True \<rparr>"

text \<open>
  A remote that ignores the type filter and serves its records newest first: t10, t9,
  then t8, t7, t6, and after that empty pages.
\<close>

definition ex_remote :: remote where
  "ex_remote n req =
     (if n = 0 then PageData ex_page0
      else if n = 1 then PageData ex_page1
      else PageData ex_empty_page)"

text \<open>Remotes whose second answer is an empty page flagged \<open>nextPage\<close>, or a failure.\<close>

definition ex_remote_empty :: remote where
  "ex_remote_empty n req = (if n = 0 then PageData ex_page0 else PageData ex_empty_page)"

definition ex_remote_failing :: remote where
  "ex_remote_failing n req = (if n = 0 then PageData ex_page0 else ConnectionFailed)"


definition ex_remote_epoch :: remote where
  "ex_remote_epoch n req = (if n = 0 then PageData ex_page_epoch else PageData ex_empty_page)"

section \<open>OAuth client with PKCE (\<open>oauth_client.py\<close>, \<open>fastmcp_server.py\<close>)\<close>

text \<open>Bytes, as \<open>secrets.token_bytes\<close> and \<open>hashlib\<close> produce them.\<close>

type_synonym byte = "8 word"

text \<open>
  \<open>base64.urlsafe_b64encode\<close>: three bytes become four characters of the URL-safe
  alphabet, and a final group of one or two bytes is padded with \<open>=\<close>.
\<close>

definition b64url_alphabet :: string where
  "b64url_alphabet = ''ABCDEFGHIJKLMNOPQRSTUVWXYZabcdefghijklmnopqrstuvwxyz0123456789-_''"

definition b64_char :: "nat \<Rightarrow> char" where
  "b64_char i = b64url_alphabet ! (i mod 64)"

fun urlsafe_b64encode :: "byte list \<Rightarrow> string" where
  "urlsafe_b64encode [] = []"
| "urlsafe_b64encode [a] =
     [b64_char (unat a div 4), b64_char (unat a mod 4 * 16), CHR ''='', CHR ''='']"
| "urlsafe_b64encode [a, b] =
     [b64_char (unat a div 4), b64_char (unat a mod 4 * 16 + unat b div 16),
      b64_char (unat b mod 16 * 4), CHR ''='']"
| "urlsafe_b64encode (a # b # c # rest) =
     [b64_char (unat a div 4), b64_char (unat a mod 4 * 16 + unat b div 16),
      b64_char (unat b mod 16 * 4 + unat c div 64), b64_char (unat c mod 64)]
     @ urlsafe_b64encode rest"

text \<open>
  Base64url without padding, as the PKCE specification words it: a final group of one or
  two bytes yields two or three characters and nothing more.
\<close>

fun base64url_nopad :: "byte list \<Rightarrow> string" where
  "base64url_nopad [] = []"
| "base64url_nopad [a] = [b64_char (unat a div 4), b64_char (unat a mod 4 * 16)]"
| "base64url_nopad [a, b] =
     [b64_char (unat a div 4), b64_char (unat a mod 4 * 16 + unat b div 16),
      b64_char (unat b mod 16 * 4)]"
| "base64url_nopad (a # b # c # rest) =
     [b64_char (unat a div 4), b64_char (unat a mod 4 * 16 + unat b div 16),
      b64_char (unat b mod 16 * 4 + unat c div 64), b64_char (unat c mod 64)]
     @ base64url_nopad rest"

text \<open>\<open>s.rstrip(c)\<close> for a single character.\<close>

definition rstrip :: "char \<Rightarrow> string \<Rightarrow> string" where
  "rstrip c s = rev (dropWhile (\<lambda>x. x = c) (rev s))"

text \<open>
  \<open>urllib.parse.urlencode\<close> on a dict of strings: each key and value goes through
  \<open>quote_plus\<close>, which keeps letters, digits and \<open>_.-~\<close>, turns a space into
  \<open>+\<close> and writes any other byte as \<open>%XX\<close>.
\<close>

definition always_safe :: "char \<Rightarrow> bool" where
  "always_safe c =
     (let n = (of_char c :: nat) in
      (48 \<le> n \<and> n \<le> 57) \<or> (65 \<le> n \<and> n \<le> 90) \<or> (97 \<le> n \<and> n \<le> 122) \<or>
      c = CHR ''_'' \<or> c = CHR ''.'' \<or> c = CHR ''-'' \<or> c = CHR ''~'')"

definition hex_digit :: "nat \<Rightarrow> char" where
  "hex_digit n = (if n < 10 then char_of (48 + n) else char_of (55 + n))"

definition quote_plus_char :: "char \<Rightarrow> string" where
  "quote_plus_char c =
     (if always_safe c then [c]
      else if c = CHR '' '' then ''+''
      else [CHR ''%'', hex_digit (of_char c div 16), hex_digit (of_char c mod 16)])"

definition quote_plus :: "string \<Rightarrow> string" where
  "quote_plus s = concat (map quote_plus_char s)"

definition urlencode :: "(string \<times> string) list \<Rightarrow> string" where
  "urlencode params = join ''&'' (map (\<lambda>(k, v). quote_plus k @ ''='' @ quote_plus v) params)"

text \<open>
  Reading a query string back, as \<open>urllib.parse.parse_qsl\<close> does with blank values
  kept: split at \<open>&\<close>, split each field at its first \<open>=\<close>, undo the quoting.
  The code never does this; it is what a URL carrying a parameter means.
\<close>

definition hex_value :: "char \<Rightarrow> nat option" where
  "hex_value c =
     (let n = (of_char c :: nat) in
      if 48 \<le> n \<and> n \<le> 57 then Some (n - 48)
      else if 65 \<le> n \<and> n \<le> 70 then Some (n - 55)
      else if 97 \<le> n \<and> n \<le> 102 then Some (n - 87)
      else None)"

fun unquote_plus :: "string \<Rightarrow> string" where
  "unquote_plus [] = []"
| "unquote_plus (c # cs) =
     (if c = CHR ''+'' then CHR '' '' # unquote_plus cs
      else if c = CHR ''%'' then
        (case cs of
           h1 # h2 # rest \<Rightarrow>
             (case (hex_value h1, hex_value h2) of
                (Some a, Some b) \<Rightarrow> char_of (16 * a + b) # unquote_plus rest
              | _ \<Rightarrow> c # unquote_plus cs)
         | _ \<Rightarrow> c # unquote_plus cs)
      else c # unquote_plus cs)"

fun split_on :: "char \<Rightarrow> string \<Rightarrow> string list" where
  "split_on c [] = [[]]"
| "split_on c (x # xs) =
     (if x = c then [] # split_on c xs
      else (case split_on c xs of
              w # ws \<Rightarrow> (x # w) # ws
            | [] \<Rightarrow> [[x]]))"

definition parse_field :: "string \<Rightarrow> string \<times> string" where
  "parse_field f =
     (let k = takeWhile (\<lambda>x. x \<noteq> CHR ''='') f
      in (unquote_plus k, unquote_plus (drop (length k + 1) f)))"

definition parse_qsl :: "string \<Rightarrow> (string \<times> string) list" where
  "parse_qsl q = (if q = [] then [] else map parse_field (split_on CHR ''&'' q))"

text \<open>The client object; the three PKCE attributes start as \<open>None\<close>.\<close>

record GHLOAuthClient =
  client_id :: string
  client_secret :: string
  redirect_uri :: string
  client_base_url :: string
  auth_url :: string
  token_url :: string
  code_verifier :: "string option"
  code_challenge :: "string option"
  state :: "string option"

definition GHLOAuthClient_init :: "string \<Rightarrow> string \<Rightarrow> string \<Rightarrow> string \<Rightarrow> GHLOAuthClient" where
  "GHLOAuthClient_init cid secret ruri burl =
     \<lparr> client_id = cid, client_secret = secret, redirect_uri = ruri, client_base_url = burl,
       auth_url = burl @ ''/oauth/authorize'', token_url = burl @ ''/oauth/token'',
       code_verifier = None, code_challenge = None, state = None \<rparr>"

text \<open>
  \<open>secrets.token_bytes(n)\<close> reads \<open>n\<close> bytes from an entropy source, and
  \<open>secrets.token_urlsafe(n)\<close> is their base64url text without padding.
  \<open>s.encode('utf-8')\<close> on a string of bytes.
\<close>

definition encode_utf8 :: "string \<Rightarrow> byte list" where
  "encode_utf8 s = map of_char s"

definition token_bytes :: "(nat \<Rightarrow> byte) \<Rightarrow> nat \<Rightarrow> byte list" where
  "token_bytes entropy n = map entropy [0..<n]"

definition token_urlsafe :: "(nat \<Rightarrow> byte) \<Rightarrow> nat \<Rightarrow> string" where
  "token_urlsafe entropy nbytes = rstrip CHR ''='' (urlsafe_b64encode (token_bytes entropy nbytes))"

text \<open>
  \<open>_generate_pkce_params\<close>, given the entropy that the two calls into
  \<open>secrets\<close> read. \<open>hashlib.sha256(...).digest()\<close> is a library function and
  is the parameter \<open>sha256\<close>: the generator is modelled for any digest function.
\<close>

definition generate_pkce_params ::
  "(byte list \<Rightarrow> byte list) \<Rightarrow> (nat \<Rightarrow> byte) \<Rightarrow> (nat \<Rightarrow> byte) \<Rightarrow> GHLOAuthClient \<Rightarrow>
   GHLOAuthClient" where
  "generate_pkce_params sha256 entropy1 entropy2 self =
     (let verifier = rstrip CHR ''='' (urlsafe_b64encode (token_bytes entropy1 32));
          challenge_bytes = sha256 (encode_utf8 verifier);
          challenge = rstrip CHR ''='' (urlsafe_b64encode challenge_bytes)
      in self\<lparr> code_verifier := Some verifier,
               code_challenge := Some challenge,
               state := Some (token_urlsafe entropy2 32) \<rparr>)"

definition default_scopes :: "string list" where
  "default_scopes =
     [''contacts.readonly'', ''contacts.write'', ''opportunities.readonly'',
      ''opportunities.write'', ''calendars.readonly'', ''calendars.write'',
      ''conversations.readonly'', ''workflows.readonly'', ''locations.readonly'',
      ''users.readonly'']"

text \<open>\<open>str(v)\<close> for an attribute that is a string or \<open>None\<close>.\<close>

definition py_str :: "string option \<Rightarrow> string" where
  "py_str v = (case v of None \<Rightarrow> ''None'' | Some s \<Rightarrow> s)"

text \<open>
  The \<open>params\<close> dict of both URL builders, in insertion order, and the builders:
  \<open>GHLOAuthClient.get_authorization_url\<close>, which first generates the PKCE
  parameters, and \<open>GHLOAuthProvider.get_authorization_url\<close>, which reads
  \<open>Config\<close>. Neither tests its inputs, and neither is given a network.
\<close>

definition authorization_params ::
  "string \<Rightarrow> string \<Rightarrow> string list \<Rightarrow> string \<Rightarrow> string \<Rightarrow> (string \<times> string) list" where
  "authorization_params cid ruri scopes st challenge =
     [(''response_type'', ''code''),
      (''client_id'', cid),
      (''redirect_uri'', ruri),
      (''scope'', join '' '' scopes),
      (''state'', st),
      (''code_challenge'', challenge),
      (''code_challenge_method'', ''S256'')]"

definition get_authorization_url ::
  "(byte list \<Rightarrow> byte list) \<Rightarrow> (nat \<Rightarrow> byte) \<Rightarrow> (nat \<Rightarrow> byte) \<Rightarrow> string list option \<Rightarrow>
   GHLOAuthClient \<Rightarrow> string \<times> GHLOAuthClient" where
  "get_authorization_url sha256 entropy1 entropy2 scopes self =
     (let scopes' = (case scopes of None \<Rightarrow> default_scopes | Some l \<Rightarrow> l);
          self' = generate_pkce_params sha256 entropy1 entropy2 self;
          params = authorization_params (client_id self') (redirect_uri self') scopes'
                     (py_str (state self')) (py_str (code_challenge self'))
      in (auth_url self' @ ''?'' @ urlencode params, self'))"

definition provider_get_authorization_url :: "Config \<Rightarrow> string \<Rightarrow> string \<Rightarrow> string" where
  "provider_get_authorization_url cfg st challenge =
     GHL_AUTH_URL cfg @ ''?'' @
       urlencode (authorization_params (CLIENT_ID cfg) (REDIRECT_URI cfg) (SCOPES cfg) st challenge)"

text \<open>
  \<open>GHLOAuthClient.exchange_code_for_token\<close>. The two \<open>ValueError\<close>s are
  \<open>InvalidState\<close> (invalid state parameter) and \<open>VerifierNotFound\<close> (code verifier
  not found); a status error and any other exception are re-raised. The logging after a
  decoded answer reads \<open>access_token\<close> as a string and \<open>expires_in\<close>. The second
  component is the POSTs sent.
\<close>

datatype exchange_error =
    InvalidState
  | VerifierNotFound
  | StatusError nat
  | OtherError

definition exchange_request :: "GHLOAuthClient \<Rightarrow> string \<Rightarrow> post_request" where
  "exchange_request self authorization_code =
     \<lparr> post_url = token_url self,
       post_data = [(''grant_type'', ''authorization_code''),
                    (''code'', authorization_code),
                    (''client_id'', client_id self),
                    (''client_secret'', client_secret self),
                    (''redirect_uri'', redirect_uri self),
                    (''code_verifier'', py_str (code_verifier self))] \<rparr>"

definition exchange_code_for_token ::
  "(post_request \<Rightarrow> post_result) \<Rightarrow> string \<Rightarrow> string \<Rightarrow> GHLOAuthClient \<Rightarrow>
   (exchange_error + jdict) \<times> post_request list" where
  "exchange_code_for_token post authorization_code received_state self =
     (if Some received_state \<noteq> state self then (Inl InvalidState, [])
      else if code_verifier self = None \<or> code_verifier self = Some [] then (Inl VerifierNotFound, [])
      else
        let req = exchange_request self authorization_code in
        (case post req of
           HTTPStatusError status \<Rightarrow> (Inl (StatusError status), [req])
         | JSONBody token_response \<Rightarrow>
             (case (token_response ''access_token'', token_response ''expires_in'') of
                (Some (JStr a), Some e) \<Rightarrow> (Inr token_response, [req])
              | _ \<Rightarrow> (Inl OtherError, [req]))
         | _ \<Rightarrow> (Inl OtherError, [req])))"

subsection \<open>Sample client, entropy and digest\<close>

text \<open>
  A client that has not started a flow, a fixed entropy source, and a stand-in digest
  function of 32 bytes for the evaluated examples; it is not SHA-256.
\<close>

definition ex_client :: GHLOAuthClient where
  "ex_client = GHLOAuthClient_init ''cid'' ''sec'' ''http://localhost:8000/oauth/callback''
                 ''https://ghl.test''"

definition ex_digest :: "byte list \<Rightarrow> byte list" where
  "ex_digest bs = replicate 32 (of_nat (length bs))"

definition ex_entropy :: "nat \<Rightarrow> byte" where
  "ex_entropy i = of_nat (7 * i + 1)"

section \<open>Properties of the token store\<close>

text \<open>
  The refresh path builds no token exactly from the bodies that are malformed or whose
  lifetime overflows; a token it builds carries the fields of the body and of the
  previous credential.
\<close>

lemma refreshed_token_None_iff:
  "refreshed_token token now d = None \<longleftrightarrow> malformed_body d \<or> lifetime_overflows now d"
  by (auto simp: refreshed_token_def malformed_body_def lifetime_overflows_def expiry_def
      get_str_default_def required_int_def required_str_def timedelta_seconds_def
      datetime_add_def valid_datetime_def
      split: option.splits jval.splits sum.splits if_splits)

lemma datetime_sub_valid:
  "valid_datetime (t - d) \<Longrightarrow> datetime_sub t d = Inr (t - d)"
  by (simp add: datetime_sub_def)


lemma expiry_Some:
  "expiry now e = Some t \<longleftrightarrow>
     - 999999999 \<le> e div 86400 \<and> e div 86400 \<le> 999999999
     \<and> valid_datetime (now + e * 1000000) \<and> t = now + e * 1000000"
  by (auto simp: expiry_def timedelta_seconds_def datetime_add_def)

lemma refreshed_token_fields:
  assumes "refreshed_token token now d = Some new_token"
  shows "refresh_token new_token
           = (case d ''refresh_token'' of Some (JStr r) \<Rightarrow> r | _ \<Rightarrow> refresh_token token)
       \<and> scope new_token = (case d ''scope'' of Some (JStr s) \<Rightarrow> s | _ \<Rightarrow> scope token)
       \<and> location_id new_token = location_id token
       \<and> user_id new_token = user_id token
       \<and> d ''access_token'' = Some (JStr (access_token new_token))
       \<and> d ''expires_in'' = Some (JInt (expires_in new_token))
       \<and> expires_at new_token = now + expires_in new_token * 1000000
       \<and> valid_datetime (expires_at new_token)"
  using assms
  by (auto simp: refreshed_token_def required_str_def required_int_def get_str_default_def
      expiry_Some split: option.splits jval.splits)

text \<open>
  When a refresh is due and the validity test does not raise, the call is one POST and
  what the answer to it gives.
\<close>

lemma refresh_due:
  assumes "tokens uid = Some token"
    and "valid_datetime (expires_at token - timedelta_minutes 5)"
    and "\<not> now_check < expires_at token - timedelta_minutes 5"
  shows "TokenStore_refresh_token cfg post now_check now_receipt uid tokens =
     (case post (refresh_request cfg token) of
        JSONBody d \<Rightarrow>
          (case refreshed_token token now_receipt d of
             Some new_token \<Rightarrow>
               (Inr (Some new_token), tokens(uid \<mapsto> new_token), [refresh_request cfg token])
           | None \<Rightarrow> (Inr None, tokens, [refresh_request cfg token]))
      | _ \<Rightarrow> (Inr None, tokens, [refresh_request cfg token]))"
  using assms
  by (simp add: TokenStore_refresh_token_def get_token_def store_token_def Let_def
      datetime_sub_valid split: post_result.splits option.splits)


text \<open>
  The refresh state machine of \<open>TokenStore.refresh_token\<close>. With no stored credential
  it returns \<open>None\<close> and sends nothing. With a stored credential whose
  \<open>expires_at - 5 minutes\<close> is a datetime, and \<open>now < expires_at - 5 minutes\<close>, it
  returns that credential, leaves the store as it is and sends nothing. With a stored
  credential whose \<open>expires_at - 5 minutes\<close> is a datetime, otherwise, it returns and
  has sent exactly one POST: to the token URL, with the grant type \<open>refresh_token\<close>,
  the stored refresh token, the client id and the client secret; when the answer yields
  a new credential, that one is stored under the user id and returned; when it does
  not, \<open>None\<close> is returned and the store is as it was. With a stored credential whose
  \<open>expires_at - 5 minutes\<close> is not a datetime, the validity test raises
  \<open>OverflowError\<close>: nothing is sent and nothing is returned.
\<close>

lemma refresh_state_machine:
  "(tokens uid = None \<longrightarrow>
      TokenStore_refresh_token cfg post now_check now_receipt uid tokens = (Inr None, tokens, []))
   \<and> (tokens uid = Some token \<and> valid_datetime (expires_at token - timedelta_minutes 5)
        \<and> now_check < expires_at token - timedelta_minutes 5 \<longrightarrow>
      TokenStore_refresh_token cfg post now_check now_receipt uid tokens
        = (Inr (Some token), tokens, []))
   \<and> (tokens uid = Some token \<and> valid_datetime (expires_at token - timedelta_minutes 5)
        \<and> \<not> now_check < expires_at token - timedelta_minutes 5 \<longrightarrow>
      (\<exists>r tokens' call.
         TokenStore_refresh_token cfg post now_check now_receipt uid tokens = (Inr r, tokens', [call])
         \<and> call = \<lparr> post_url = GHL_TOKEN_URL cfg,
                     post_data = [(''grant_type'', ''refresh_token''),
                                  (''refresh_token'', refresh_token token),
                                  (''client_id'', CLIENT_ID cfg),
                                  (''client_secret'', CLIENT_SECRET cfg)] \<rparr>
         \<and> (\<forall>d new_token. post call = JSONBody d
               \<and> refreshed_token token now_receipt d = Some new_token
               \<longrightarrow> r = Some new_token \<and> tokens' = tokens(uid \<mapsto> new_token))
         \<and> ((\<forall>d. post call = JSONBody d \<longrightarrow> refreshed_token token now_receipt d = None)
               \<longrightarrow> r = None \<and> tokens' = tokens)))
   \<and> (tokens uid = Some token \<and> \<not> valid_datetime (expires_at token - timedelta_minutes 5) \<longrightarrow>
      TokenStore_refresh_token cfg post now_check now_receipt uid tokens
        = (Inl OverflowError, tokens, []))"
proof (intro conjI impI)
  assume "tokens uid = None"
  then show "TokenStore_refresh_token cfg post now_check now_receipt uid tokens
               = (Inr None, tokens, [])"
    by (simp add: TokenStore_refresh_token_def get_token_def)
next
  assume "tokens uid = Some token \<and> valid_datetime (expires_at token - timedelta_minutes 5)
        \<and> now_check < expires_at token - timedelta_minutes 5"
  then show "TokenStore_refresh_token cfg post now_check now_receipt uid tokens
        = (Inr (Some token), tokens, [])"
    by (simp add: TokenStore_refresh_token_def get_token_def datetime_sub_valid)
next
  assume "tokens uid = Some token \<and> \<not> valid_datetime (expires_at token - timedelta_minutes 5)"
  then show "TokenStore_refresh_token cfg post now_check now_receipt uid tokens
        = (Inl OverflowError, tokens, [])"
    by (simp add: TokenStore_refresh_token_def get_token_def datetime_sub_def)
next
  assume h: "tokens uid = Some token \<and> valid_datetime (expires_at token - timedelta_minutes 5)
        \<and> \<not> now_check < expires_at token - timedelta_minutes 5"
  have call: "refresh_request cfg token
                = \<lparr> post_url = GHL_TOKEN_URL cfg,
                     post_data = [(''grant_type'', ''refresh_token''),
                                  (''refresh_token'', refresh_token token),
                                  (''client_id'', CLIENT_ID cfg),
                                  (''client_secret'', CLIENT_SECRET cfg)] \<rparr>"
    by (simp add: refresh_request_def)
  from h have run: "TokenStore_refresh_token cfg post now_check now_receipt uid tokens =
     (case post (refresh_request cfg token) of
        JSONBody d \<Rightarrow>
          (case refreshed_token token now_receipt d of
             Some new_token \<Rightarrow>
               (Inr (Some new_token), tokens(uid \<mapsto> new_token), [refresh_request cfg token])
           | None \<Rightarrow> (Inr None, tokens, [refresh_request cfg token]))
      | _ \<Rightarrow> (Inr None, tokens, [refresh_request cfg token]))"
    by (intro refresh_due) simp_all
  show "\<exists>r tokens' call.
         TokenStore_refresh_token cfg post now_check now_receipt uid tokens = (Inr r, tokens', [call])
         \<and> call = \<lparr> post_url = GHL_TOKEN_URL cfg,
                     post_data = [(''grant_type'', ''refresh_token''),
                                  (''refresh_token'', refresh_token token),
                                  (''client_id'', CLIENT_ID cfg),
                                  (''client_secret'', CLIENT_SECRET cfg)] \<rparr>
         \<and> (\<forall>d new_token. post call = JSONBody d
               \<and> refreshed_token token now_receipt d = Some new_token
               \<longrightarrow> r = Some new_token \<and> tokens' = tokens(uid \<mapsto> new_token))
         \<and> ((\<forall>d. post call = JSONBody d \<longrightarrow> refreshed_token token now_receipt d = None)
               \<longrightarrow> r = None \<and> tokens' = tokens)"
    unfolding run call[symmetric]
    by (cases "post (refresh_request cfg token)")
       (auto split: option.splits)
qed

text \<open>
  The three branches at noon of 2026-11-04: an empty store; a credential expiring in one
  hour; a credential expiring in two minutes, refreshed by an issuer that answers and by
  one that rejects the request.
\<close>

lemma refresh_state_machine_example:
  "TokenStore_refresh_token ex_cfg ex_issuer ex_now (ex_now + 5) ''u1'' Map.empty
       = (Inr None, Map.empty, [])
   \<and> TokenStore_refresh_token ex_cfg ex_issuer ex_now (ex_now + 5) ''u1''
         [''u1'' \<mapsto> ex_token (ex_now + 3600000000)]
       = (Inr (Some (ex_token (ex_now + 3600000000))),
          [''u1'' \<mapsto> ex_token (ex_now + 3600000000)], [])
   \<and> TokenStore_refresh_token ex_cfg ex_issuer ex_now (ex_now + 5) ''u1''
         [''u1'' \<mapsto> ex_token (ex_now + 120000000)]
       = (Inr (Some ((ex_token (ex_now + 3600000005))\<lparr>access_token := ''a1''\<rparr>)),
          [''u1'' \<mapsto> (ex_token (ex_now + 3600000005))\<lparr>access_token := ''a1''\<rparr>],
          [\<lparr> post_url = ''https://ghl.test/oauth/token'',
             post_data = [(''grant_type'', ''refresh_token''), (''refresh_token'', ''r0''),
                          (''client_id'', ''cid''), (''client_secret'', ''sec'')] \<rparr>])
   \<and> TokenStore_refresh_token ex_cfg ex_issuer_down ex_now (ex_now + 5) ''u1''
         [''u1'' \<mapsto> ex_token (ex_now + 120000000)]
       = (Inr None, [''u1'' \<mapsto> ex_token (ex_now + 120000000)],
          [\<lparr> post_url = ''https://ghl.test/oauth/token'',
             post_data = [(''grant_type'', ''refresh_token''), (''refresh_token'', ''r0''),
                          (''client_id'', ''cid''), (''client_secret'', ''sec'')] \<rparr>])"
  by (simp add: TokenStore_refresh_token_def get_token_def store_token_def Let_def
      ex_token_def ex_now_def ex_cfg_def timedelta_minutes_def timedelta_seconds_def ex_issuer_def
      ex_issuer_down_def refresh_request_def datetime_sub_def datetime_add_def valid_datetime_def
      datetime_max_def expiry_def
      refreshed_token_def required_str_def required_int_def get_str_default_def)

text \<open>
  C2 at a stored credential that expires less than five minutes after \<open>datetime.min\<close>.
  With \<open>expires_at\<close> = 0001-01-01 00:02:00 the credential is stored, its expiry is a
  datetime, and it is not valid any more; the claim has the call send one refresh
  request and return the new credential or \<open>None\<close>. The call sends no request and
  does not return: the subtraction in the validity test, which stands before the
  \<open>try\<close>, raises \<open>OverflowError\<close>.
\<close>

theorem ensure_fresh_raises_on_early_expiry:
  "[''u1'' \<mapsto> ex_token 120000000] ''u1'' = Some (ex_token 120000000)
   \<and> valid_datetime (expires_at (ex_token 120000000))
   \<and> \<not> ex_now < expires_at (ex_token 120000000) - timedelta_minutes 5
   \<and> TokenStore_refresh_token ex_cfg ex_issuer ex_now (ex_now + 5) ''u1''
         [''u1'' \<mapsto> ex_token 120000000]
       = (Inl OverflowError, [''u1'' \<mapsto> ex_token 120000000], [])"
  by (simp add: TokenStore_refresh_token_def get_token_def ex_token_def ex_now_def
      timedelta_minutes_def datetime_sub_def valid_datetime_def datetime_max_def)

text \<open>
  The refresh path itself stores such a credential when the issuer answers with a
  lifetime of \<open>-63929390280\<close> seconds at noon of 2026-11-04; the next call raises.
\<close>

lemma early_expiry_reachable:
  "TokenStore_refresh_token ex_cfg ex_issuer_past ex_now ex_now ''u1''
       [''u1'' \<mapsto> ex_token (ex_now + 120000000)]
     = (Inr (Some ((ex_token 120000000)\<lparr>access_token := ''a1'', expires_in := - 63929390280\<rparr>)),
        [''u1'' \<mapsto> (ex_token 120000000)\<lparr>access_token := ''a1'', expires_in := - 63929390280\<rparr>],
        [refresh_request ex_cfg (ex_token (ex_now + 120000000))])
   \<and> TokenStore_refresh_token ex_cfg ex_issuer ex_now ex_now ''u1''
       [''u1'' \<mapsto> (ex_token 120000000)\<lparr>access_token := ''a1'', expires_in := - 63929390280\<rparr>]
     = (Inl OverflowError,
        [''u1'' \<mapsto> (ex_token 120000000)\<lparr>access_token := ''a1'', expires_in := - 63929390280\<rparr>],
        [])"
  by (simp add: TokenStore_refresh_token_def get_token_def store_token_def Let_def
      ex_token_def ex_now_def timedelta_minutes_def timedelta_seconds_def ex_issuer_past_def
      datetime_sub_def datetime_add_def valid_datetime_def datetime_max_def expiry_def
      refreshed_token_def required_str_def required_int_def get_str_default_def)

text \<open>
  C5. Whatever a call does, it leaves the store as it was or replaces the entry of the
  user id by the credential it returns, in one step. When a refresh is due, every
  failure of the refresh (the transport raises, the status is not a success, the body
  does not decode, the decoded body is malformed or its lifetime cannot be turned into
  an expiry time) returns \<open>None\<close> and leaves the store exactly as it was. On success
  the store differs from the old one only at the user id, which now holds the returned
  credential; that credential has the issuer's access token and lifetime, an expiry
  computed from the moment of receipt, the issuer's refresh token and scope or, where
  the issuer sent none, the previous one, and the location and user identifiers of the
  previous credential.
\<close>

theorem refresh_atomic_carry_forward:
  "(\<exists>res tokens' calls.
      TokenStore_refresh_token cfg post now_check now_receipt uid tokens = (res, tokens', calls)
      \<and> (tokens' = tokens
          \<or> (\<exists>new_token. res = Inr (Some new_token) \<and> tokens' = tokens(uid \<mapsto> new_token))))
   \<and> (tokens uid = Some token \<and> valid_datetime (expires_at token - timedelta_minutes 5)
       \<and> \<not> now_check < expires_at token - timedelta_minutes 5 \<longrightarrow>
       ((post (refresh_request cfg token) = TransportError
           \<or> (\<exists>status. post (refresh_request cfg token) = HTTPStatusError status)
           \<or> post (refresh_request cfg token) = DecodeError
           \<or> (\<exists>d. post (refresh_request cfg token) = JSONBody d
                  \<and> (malformed_body d \<or> lifetime_overflows now_receipt d)))
          \<longrightarrow> TokenStore_refresh_token cfg post now_check now_receipt uid tokens
                = (Inr None, tokens, [refresh_request cfg token]))
       \<and> (\<forall>d. post (refresh_request cfg token) = JSONBody d
               \<and> \<not> malformed_body d \<and> \<not> lifetime_overflows now_receipt d
          \<longrightarrow> (\<exists>new_token.
                 TokenStore_refresh_token cfg post now_check now_receipt uid tokens
                   = (Inr (Some new_token), tokens(uid \<mapsto> new_token), [refresh_request cfg token])
                 \<and> refresh_token new_token
                     = (case d ''refresh_token'' of Some (JStr r) \<Rightarrow> r | _ \<Rightarrow> refresh_token token)
                 \<and> scope new_token
                     = (case d ''scope'' of Some (JStr s) \<Rightarrow> s | _ \<Rightarrow> scope token)
                 \<and> location_id new_token = location_id token
                 \<and> user_id new_token = user_id token
                 \<and> d ''access_token'' = Some (JStr (access_token new_token))
                 \<and> d ''expires_in'' = Some (JInt (expires_in new_token))
                 \<and> expires_at new_token = now_receipt + expires_in new_token * 1000000
                 \<and> valid_datetime (expires_at new_token))))"
proof (intro conjI impI allI)
  show "\<exists>res tokens' calls.
      TokenStore_refresh_token cfg post now_check now_receipt uid tokens = (res, tokens', calls)
      \<and> (tokens' = tokens
          \<or> (\<exists>new_token. res = Inr (Some new_token) \<and> tokens' = tokens(uid \<mapsto> new_token)))"
    by (auto simp: TokenStore_refresh_token_def get_token_def store_token_def Let_def
        split: option.splits sum.splits post_result.splits)
next
  assume due: "tokens uid = Some token \<and> valid_datetime (expires_at token - timedelta_minutes 5)
       \<and> \<not> now_check < expires_at token - timedelta_minutes 5"
  assume "post (refresh_request cfg token) = TransportError
           \<or> (\<exists>status. post (refresh_request cfg token) = HTTPStatusError status)
           \<or> post (refresh_request cfg token) = DecodeError
           \<or> (\<exists>d. post (refresh_request cfg token) = JSONBody d
                  \<and> (malformed_body d \<or> lifetime_overflows now_receipt d))"
  then show "TokenStore_refresh_token cfg post now_check now_receipt uid tokens
                = (Inr None, tokens, [refresh_request cfg token])"
    using due
    by (subst refresh_due[where tokens = tokens and uid = uid and token = token])
       (auto simp: refreshed_token_None_iff[THEN iffD2])
next
  fix d
  assume due: "tokens uid = Some token \<and> valid_datetime (expires_at token - timedelta_minutes 5)
       \<and> \<not> now_check < expires_at token - timedelta_minutes 5"
  assume body: "post (refresh_request cfg token) = JSONBody d
               \<and> \<not> malformed_body d \<and> \<not> lifetime_overflows now_receipt d"
  then obtain new_token where new: "refreshed_token token now_receipt d = Some new_token"
    using refreshed_token_None_iff[of token now_receipt d] by auto
  have "TokenStore_refresh_token cfg post now_check now_receipt uid tokens =
     (case post (refresh_request cfg token) of
        JSONBody d \<Rightarrow>
          (case refreshed_token token now_receipt d of
             Some new_token \<Rightarrow>
               (Inr (Some new_token), tokens(uid \<mapsto> new_token), [refresh_request cfg token])
           | None \<Rightarrow> (Inr None, tokens, [refresh_request cfg token]))
      | _ \<Rightarrow> (Inr None, tokens, [refresh_request cfg token]))"
    using due by (intro refresh_due) simp_all
  then have run: "TokenStore_refresh_token cfg post now_check now_receipt uid tokens
      = (Inr (Some new_token), tokens(uid \<mapsto> new_token), [refresh_request cfg token])"
    using body new by simp
  show "\<exists>new_token.
                 TokenStore_refresh_token cfg post now_check now_receipt uid tokens
                   = (Inr (Some new_token), tokens(uid \<mapsto> new_token), [refresh_request cfg token])
                 \<and> refresh_token new_token
                     = (case d ''refresh_token'' of Some (JStr r) \<Rightarrow> r | _ \<Rightarrow> refresh_token token)
                 \<and> scope new_token
                     = (case d ''scope'' of Some (JStr s) \<Rightarrow> s | _ \<Rightarrow> scope token)
                 \<and> location_id new_token = location_id token
                 \<and> user_id new_token = user_id token
                 \<and> d ''access_token'' = Some (JStr (access_token new_token))
                 \<and> d ''expires_in'' = Some (JInt (expires_in new_token))
                 \<and> expires_at new_token = now_receipt + expires_in new_token * 1000000
                 \<and> valid_datetime (expires_at new_token)"
    using run refreshed_token_fields[OF new] by blast
qed

text \<open>
  A stale credential refreshed by an issuer that omits the refresh token keeps
  \<open>r0\<close>, \<open>loc1\<close> and \<open>u1\<close>; refreshed by an issuer that rejects the request, or by
  one whose lifetime of \<open>10^12\<close> seconds overflows, it stays in the store as it was.
\<close>

theorem refresh_atomic_carry_forward_witness:
  "TokenStore_refresh_token ex_cfg ex_issuer_down ex_now (ex_now + 5) ''u1''
       [''u1'' \<mapsto> ex_token (ex_now + 120000000)]
     = (Inr None, [''u1'' \<mapsto> ex_token (ex_now + 120000000)],
        [refresh_request ex_cfg (ex_token (ex_now + 120000000))])
   \<and> TokenStore_refresh_token ex_cfg ex_issuer_forever ex_now (ex_now + 5) ''u1''
       [''u1'' \<mapsto> ex_token (ex_now + 120000000)]
     = (Inr None, [''u1'' \<mapsto> ex_token (ex_now + 120000000)],
        [refresh_request ex_cfg (ex_token (ex_now + 120000000))])
   \<and> (\<exists>new_token.
        TokenStore_refresh_token ex_cfg ex_issuer ex_now (ex_now + 5) ''u1''
            [''u1'' \<mapsto> ex_token (ex_now + 120000000)]
          = (Inr (Some new_token), [''u1'' \<mapsto> new_token],
             [refresh_request ex_cfg (ex_token (ex_now + 120000000))])
        \<and> refresh_token new_token = ''r0''
        \<and> location_id new_token = Some ''loc1''
        \<and> user_id new_token = Some ''u1''
        \<and> access_token new_token = ''a1''
        \<and> expires_at new_token = ex_now + 3600000005)"
proof -
  let ?tok = "ex_token (ex_now + 120000000)"
  have due: "[''u1'' \<mapsto> ?tok] ''u1'' = Some ?tok
       \<and> valid_datetime (expires_at ?tok - timedelta_minutes 5)
       \<and> \<not> ex_now < expires_at ?tok - timedelta_minutes 5"
    by (simp add: ex_token_def ex_now_def timedelta_minutes_def valid_datetime_def datetime_max_def)
  have ok: "\<not> malformed_body [''access_token'' \<mapsto> JStr ''a1'', ''expires_in'' \<mapsto> JInt 3600]"
    "\<not> lifetime_overflows (ex_now + 5) [''access_token'' \<mapsto> JStr ''a1'', ''expires_in'' \<mapsto> JInt 3600]"
    by (simp_all add: malformed_body_def required_str_def required_int_def lifetime_overflows_def
        ex_now_def datetime_max_def)
  have over: "lifetime_overflows (ex_now + 5)
       [''access_token'' \<mapsto> JStr ''a1'', ''expires_in'' \<mapsto> JInt 1000000000000]"
    by (simp add: lifetime_overflows_def ex_now_def datetime_max_def)
  note down = refresh_atomic_carry_forward[where tokens = "[''u1'' \<mapsto> ?tok]"
        and uid = "''u1''" and token = ?tok and now_check = ex_now
        and post = ex_issuer_down and cfg = ex_cfg and now_receipt = "ex_now + 5",
        THEN conjunct2, rule_format, OF due]
  note forever = refresh_atomic_carry_forward[where tokens = "[''u1'' \<mapsto> ?tok]"
        and uid = "''u1''" and token = ?tok and now_check = ex_now
        and post = ex_issuer_forever and cfg = ex_cfg and now_receipt = "ex_now + 5",
        THEN conjunct2, rule_format, OF due]
  note up = refresh_atomic_carry_forward[where tokens = "[''u1'' \<mapsto> ?tok]"
        and uid = "''u1''" and token = ?tok and now_check = ex_now
        and post = ex_issuer and cfg = ex_cfg and now_receipt = "ex_now + 5",
        THEN conjunct2, rule_format, OF due]
  show ?thesis
    using down forever up ok over
    by (auto simp: ex_issuer_def ex_issuer_down_def ex_issuer_forever_def ex_token_def)
qed

section \<open>Properties of the fetcher\<close>

subsection \<open>Pages, dates and sorting\<close>

lemma py_error_eq: "(err :: py_error) = OverflowError"
  by (cases err) simp

lemma older_dated: "older parse s m \<Longrightarrow> dated parse m"
  by (simp add: older_def dated_def split: sum.splits)

lemma in_range_dated: "in_range parse s e m \<Longrightarrow> dated parse m"
  by (simp add: in_range_def dated_def split: sum.splits)

text \<open>
  The page loop raises exactly when a record it iterates over has a date that raises;
  otherwise it retains the iterated records within the bounds.
\<close>

lemma process_page_eq:
  "process_page parse s e p f =
     (if \<forall>m \<in> set (takeWhile (\<lambda>m. \<not> older parse s m) p). dated parse m
      then Inr (f @ filter (in_range parse s e) (takeWhile (\<lambda>m. \<not> older parse s m) p),
                \<exists>m\<in>set p. older parse s m)
      else Inl OverflowError)"
proof (induction p arbitrary: f)
  case Nil
  show ?case by simp
next
  case (Cons m p)
  show ?case
  proof (cases "parse_message_date parse m")
    case (Inl err)
    then show ?thesis by (simp add: older_def dated_def py_error_eq[of err])
  next
    case (Inr d)
    then have m: "older parse s m = before_start s d" "dated parse m"
      "in_range parse s e m = is_within_date_range d s e"
      by (simp_all add: older_def in_range_def dated_def)
    have "is_within_date_range d s e \<Longrightarrow> \<not> before_start s d"
      by (simp add: is_within_date_range_def split: if_splits)
    then show ?thesis
      using Inr m Cons.IH by auto
  qed
qed

lemma loop_body_eq:
  "loop_body parse args p i st =
     (if \<forall>m \<in> set (takeWhile (\<lambda>m. \<not> older parse (start_date args) m) p). dated parse m
      then Inr (st\<lparr> filtered_messages := filtered_messages st
                       @ filter (in_range parse (start_date args) (end_date args))
                           (takeWhile (\<lambda>m. \<not> older parse (start_date args) m) p),
                     reached_date_limit := (\<exists>m\<in>set p. older parse (start_date args) m),
                     pages_fetched := pages_fetched st + 1,
                     total_fetched := total_fetched st + length p,
                     has_more := (case i of None \<Rightarrow> False | Some i \<Rightarrow> nextPage i),
                     last_message_id := (case i of None \<Rightarrow> None | Some i \<Rightarrow> lastMessageId i) \<rparr>)
      else Inl OverflowError)"
  by (simp add: loop_body_def process_page_eq)

lemma next_page_served:
  "next_page self remote args st = (p, i) \<Longrightarrow>
   served_page (next_request self args st, remote (pages_fetched st) (next_request self args st)) = p"
  by (auto simp: next_page_def fetch_message_page_def next_request_def split: get_result.splits)

lemma next_page_cursor:
  "next_page self remote args st = (p, i) \<Longrightarrow> p \<noteq> [] \<Longrightarrow>
   (case i of None \<Rightarrow> None | Some i \<Rightarrow> lastMessageId i)
     = next_cursor (remote (pages_fetched st) (next_request self args st))"
  by (auto simp: next_page_def fetch_message_page_def next_request_def split: get_result.splits)

lemma in_range_iff:
  "in_range parse S E m \<longleftrightarrow>
     dated parse m
   \<and> (case S of None \<Rightarrow> True | Some sd \<Rightarrow> instant sd \<le> instant (date_of parse m))
   \<and> (case E of None \<Rightarrow> True | Some ed \<Rightarrow> instant (date_of parse m) \<le> instant ed)"
  by (auto simp: in_range_def is_within_date_range_def before_start_def after_end_def dt_less_def
      dated_def date_of_def split: option.splits sum.splits)

lemma older_iff:
  "older parse S m \<longleftrightarrow>
     dated parse m
   \<and> (case S of None \<Rightarrow> False | Some sd \<Rightarrow> instant (date_of parse m) < instant sd)"
  by (auto simp: older_def before_start_def dt_less_def dated_def date_of_def
      split: option.splits sum.splits)



lemma date_overflows_raises:
  "date_overflows parse m \<longleftrightarrow> parse_message_date parse m = Inl OverflowError"
  by (auto simp: date_overflows_def parse_message_date_def Let_def py_or_def
      split: jval.splits parser_result.splits if_splits)

text \<open>
  Sorting messages whose dates all parse does not raise and sorts them by date; the
  retained messages are such messages.
\<close>

lemma sort_keys_dated:
  "\<forall>m\<in>set ms. dated parse m \<Longrightarrow> sort_keys parse ms = Inr (map (date_of parse) ms)"
  by (induction ms) (auto simp: dated_def date_of_def split: sum.splits)

lemma insort_key_map:
  "insort_key k (g x) (map g ys) = map g (insort_key (\<lambda>y. k (g y)) x ys)"
  by (induction ys) simp_all

lemma sort_key_map: "sort_key k (map g xs) = map g (sort_key (\<lambda>y. k (g y)) xs)"
  by (induction xs) (simp_all add: insort_key_map)

lemma zip_map_same: "zip (map f xs) xs = map (\<lambda>x. (f x, x)) xs"
  by (induction xs) simp_all

lemma sort_by_date_dated:
  "\<forall>m\<in>set ms. dated parse m \<Longrightarrow> sort_by_date parse ms = Inr (by_date parse ms)"
  by (simp add: sort_by_date_def sort_keys_dated zip_map_same sort_key_map by_date_def o_def)

lemma sort_by_date_raises:
  "\<exists>m\<in>set ms. \<not> dated parse m \<Longrightarrow> sort_by_date parse ms = Inl OverflowError"
proof -
  assume "\<exists>m\<in>set ms. \<not> dated parse m"
  then have "sort_keys parse ms = Inl OverflowError"
    by (induction ms) (auto simp: dated_def py_error_eq split: sum.splits)
  then show ?thesis by (simp add: sort_by_date_def)
qed

subsection \<open>The page loop and its invariants\<close>

lemma loop_inv_initial: "loop_inv parse args initial_state"
  by (simp add: loop_inv_def initial_state_def scanned_def)

lemma log_inv_initial: "log_inv self remote args initial_state"
  by (simp add: log_inv_def initial_state_def)

lemma loop_inv_dated: "loop_inv parse args st \<Longrightarrow> \<forall>m\<in>set (filtered_messages st). dated parse m"
  by (auto simp: loop_inv_def in_range_dated)

lemma finish_inv:
  "loop_inv parse args st \<Longrightarrow>
   finish parse args st =
     Inr (by_date parse (filtered_messages st),
          \<lparr> meta_total_fetched = total_fetched st,
            meta_total_filtered = length (filtered_messages st),
            meta_pages_fetched = pages_fetched st,
            meta_conversation_id = conversation_id args,
            meta_start_date = start_date args,
            meta_end_date = end_date args,
            meta_message_types = message_types args \<rparr>,
          exchanges st)"
  using loop_inv_dated[of parse args st]
  by (simp add: finish_def sort_by_date_dated by_date_def)

lemma loop_inv_empty_page:
  assumes "loop_inv parse args st" "\<not> reached_date_limit st"
    and "next_page self remote args st = ([], i)"
  shows "loop_inv parse args (record_exchange self remote args st)"
proof -
  have "served_page (next_request self args st,
          remote (pages_fetched st) (next_request self args st)) = []"
    using assms(3) by (rule next_page_served)
  with assms(1,2) show ?thesis
    by (auto simp: loop_inv_def record_exchange_def scanned_def)
qed

lemma loop_inv_body:
  assumes inv: "loop_inv parse args st" and nr: "\<not> reached_date_limit st"
    and np: "next_page self remote args st = (p, i)"
    and body: "loop_body parse args p i (record_exchange self remote args st) = Inr st'"
  shows "loop_inv parse args st'"
proof -
  let ?old = "older parse (start_date args)"
  let ?pages = "map served_page (exchanges st)"
  have sp: "served_page (next_request self args st,
          remote (pages_fetched st) (next_request self args st)) = p"
    using np by (rule next_page_served)
  have clean: "\<forall>m \<in> set (concat ?pages). \<not> ?old m"
    using inv nr by (simp add: loop_inv_def)
  have tw: "takeWhile (\<lambda>m. \<not> ?old m) (concat ?pages @ p)
        = concat ?pages @ takeWhile (\<lambda>m. \<not> ?old m) p"
    by (rule takeWhile_append2) (use clean in blast)
  have filt: "filtered_messages st
       = filter (in_range parse (start_date args) (end_date args)) (concat ?pages)"
    using inv clean by (simp add: loop_inv_def scanned_def takeWhile_eq_all_conv[THEN iffD2])
  show ?thesis
    using body sp clean tw filt
    by (auto simp: loop_inv_def loop_body_eq record_exchange_def scanned_def split: if_splits)
qed

lemma conversation_log_append:
  "conversation_log self remote args n c (xs @ [x]) \<longleftrightarrow>
     conversation_log self remote args n c xs
     \<and> fst x = page_request self (conversation_id args) (cursor_after c xs) (limit_per_page args)
                 (message_types args)
     \<and> snd x = remote (n + length xs) (fst x)"
  by (induction xs arbitrary: n c) auto

lemma cursor_after_append: "cursor_after c (xs @ [x]) = next_cursor (snd x)"
  by (induction xs arbitrary: c) auto

lemma conversation_log_types:
  "conversation_log self remote args n c xs \<Longrightarrow>
   \<forall>x\<in>set xs. param_type (fst x)
      = (case message_types args of
           None \<Rightarrow> None
         | Some ts \<Rightarrow> if ts = [] then None else Some (join '','' ts))"
  by (induction xs arbitrary: n c) (auto simp: page_request_def)

lemma conversation_log_normalized:
  "conversation_log self remote (normalized_args args) n c xs
     = conversation_log self remote args n c xs"
  by (induction xs arbitrary: n c) (auto simp: normalized_args_def)

lemma log_after_request:
  "log_inv self remote args st \<Longrightarrow>
   conversation_log self remote args 0 None (exchanges (record_exchange self remote args st))"
  by (simp add: log_inv_def record_exchange_def conversation_log_append next_request_def)

lemma log_inv_body:
  assumes log: "log_inv self remote args st"
    and np: "next_page self remote args st = (p, i)" and ne: "p \<noteq> []"
    and body: "loop_body parse args p i (record_exchange self remote args st) = Inr st'"
  shows "log_inv self remote args st'"
proof -
  have cur: "(case i of None \<Rightarrow> None | Some i \<Rightarrow> lastMessageId i)
     = next_cursor (remote (pages_fetched st) (next_request self args st))"
    using np ne by (rule next_page_cursor)
  have ex: "exchanges st' = exchanges st
      @ [(next_request self args st, remote (pages_fetched st) (next_request self args st))]"
    and pf: "pages_fetched st' = pages_fetched st + 1"
    and lm: "last_message_id st' = (case i of None \<Rightarrow> None | Some i \<Rightarrow> lastMessageId i)"
    using body by (auto simp: loop_body_eq record_exchange_def split: if_splits)
  show ?thesis
    using log unfolding log_inv_def ex pf lm cur
    by (simp add: conversation_log_append cursor_after_append next_request_def)
qed

lemma fetch_loop_inv:
  assumes "fetch_loop self remote parse args st = Some y"
  shows "\<forall>st'. y = Inr st' \<longrightarrow> loop_inv parse args st \<longrightarrow> log_inv self remote args st \<longrightarrow>
           loop_inv parse args st' \<and> conversation_log self remote args 0 None (exchanges st')"
  using assms
proof (induct rule: fetch_loop.raw_induct[rotated 1, consumes 1])
  case (1 loop self remote parse args st y)
  show ?case
  proof (intro allI impI)
    fix st'
    assume y: "y = Inr st'" and inv: "loop_inv parse args st"
      and log: "log_inv self remote args st"
    show "loop_inv parse args st' \<and> conversation_log self remote args 0 None (exchanges st')"
    proof (cases "has_more st \<and> \<not> reached_date_limit st")
      case False
      with 1(2) y have "st' = st" by auto
      with inv log show ?thesis by (simp add: log_inv_def)
    next
      case True
      obtain p i where np: "next_page self remote args st = (p, i)"
        by (cases "next_page self remote args st")
      show ?thesis
      proof (cases "p = []")
        case empty: True
        with 1(2) True np y
        have "st' = record_exchange self remote args st" by simp
        with loop_inv_empty_page[OF inv _ np[unfolded empty]] True log_after_request[OF log]
        show ?thesis by simp
      next
        case False
        show ?thesis
        proof (cases "loop_body parse args p i (record_exchange self remote args st)")
          case (Inl err)
          with 1(2) True np False y show ?thesis by simp
        next
          case (Inr s)
          with 1(2) True np False have "loop self remote parse args s = Some y" by simp
          then have "\<forall>st'. y = Inr st' \<longrightarrow> loop_inv parse args s \<longrightarrow> log_inv self remote args s \<longrightarrow>
              loop_inv parse args st' \<and> conversation_log self remote args 0 None (exchanges st')"
            by (rule 1(1))
          moreover have "loop_inv parse args s"
            using inv True np Inr by (intro loop_inv_body[of parse args st self remote p i s]) simp_all
          moreover have "log_inv self remote args s"
            using log np False Inr by (rule log_inv_body)
          ultimately show ?thesis using y by blast
        qed
      qed
    qed
  qed
qed

lemma fetch_loop_inv_final:
  assumes "fetch_conversation_messages_with_date_filter self remote parse args
             = Some (Inr (msgs, meta, ex))"
  shows "\<exists>st. loop_inv parse (normalized_args args) st \<and> exchanges st = ex
            \<and> msgs = by_date parse (filtered_messages st)
            \<and> conversation_log self remote args 0 None ex"
proof -
  from assms obtain st where
    run: "fetch_loop self remote parse (normalized_args args) initial_state = Some (Inr st)"
    and fin: "finish parse (normalized_args args) st = Inr (msgs, meta, ex)"
    by (auto simp: fetch_conversation_messages_with_date_filter_def
        split: option.splits sum.splits)
  from fetch_loop_inv[OF run] loop_inv_initial log_inv_initial
  have inv: "loop_inv parse (normalized_args args) st"
    and log: "conversation_log self remote (normalized_args args) 0 None (exchanges st)"
    by blast+
  from fin finish_inv[OF inv] log show ?thesis
    using inv by (auto simp: conversation_log_normalized)
qed

lemma fetch_loop_done:
  "\<not> (has_more st \<and> \<not> reached_date_limit st) \<Longrightarrow>
   fetch_loop self remote parse args st = Some (Inr st)"
  by (subst fetch_loop.simps) auto

lemma fetch_loop_empty:
  "has_more st \<Longrightarrow> \<not> reached_date_limit st \<Longrightarrow> fst (next_page self remote args st) = [] \<Longrightarrow>
   fetch_loop self remote parse args st = Some (Inr (record_exchange self remote args st))"
  by (subst fetch_loop.simps) (simp add: case_prod_beta)

lemma fetch_loop_continue:
  "has_more st \<Longrightarrow> \<not> reached_date_limit st \<Longrightarrow> next_page self remote args st = (p, i) \<Longrightarrow>
   p \<noteq> [] \<Longrightarrow> loop_body parse args p i (record_exchange self remote args st) = Inr st' \<Longrightarrow>
   fetch_loop self remote parse args st = fetch_loop self remote parse args st'"
  by (subst fetch_loop.simps) simp

lemma fetch_loop_raise:
  "has_more st \<Longrightarrow> \<not> reached_date_limit st \<Longrightarrow> next_page self remote args st = (p, i) \<Longrightarrow>
   p \<noteq> [] \<Longrightarrow> loop_body parse args p i (record_exchange self remote args st) = Inl err \<Longrightarrow>
   fetch_loop self remote parse args st = Some (Inl err)"
  by (subst fetch_loop.simps) simp

lemma fetch_loop_step:
  assumes "continues self remote parse args st"
  shows "fetch_loop self remote parse args st
     = fetch_loop self remote parse args (loop_step self remote parse args st)"
proof -
  obtain p i where np: "next_page self remote args st = (p, i)"
    by (cases "next_page self remote args st")
  with assms obtain s where
    body: "loop_body parse args p i (record_exchange self remote args st) = Inr s"
    by (cases "loop_body parse args p i (record_exchange self remote args st)")
       (auto simp: continues_def)
  have "loop_step self remote parse args st = s"
    by (simp add: loop_step_def np body)
  with assms np body show ?thesis
    by (simp add: continues_def fetch_loop_continue[where p = p and i = i and st' = s])
qed

lemma fetch_loop_unroll:
  "(\<forall>j<k. continues self remote parse args (state_after self remote parse args j)) \<Longrightarrow>
   fetch_loop self remote parse args initial_state
     = fetch_loop self remote parse args (state_after self remote parse args k)"
proof (induction k)
  case 0
  show ?case by (simp add: state_after_def)
next
  case (Suc k)
  then have "fetch_loop self remote parse args initial_state
     = fetch_loop self remote parse args (state_after self remote parse args k)"
    by simp
  also have "\<dots> = fetch_loop self remote parse args
                     (loop_step self remote parse args (state_after self remote parse args k))"
    using Suc.prems by (intro fetch_loop_step) simp
  finally show ?case by (simp add: state_after_def)
qed

lemma loop_step_invs:
  assumes "continues self remote parse args st"
    and "loop_inv parse args st" and "log_inv self remote args st"
  shows "loop_inv parse args (loop_step self remote parse args st)
       \<and> log_inv self remote args (loop_step self remote parse args st)"
proof -
  obtain p i where np: "next_page self remote args st = (p, i)"
    by (cases "next_page self remote args st")
  with assms(1) obtain s where
    body: "loop_body parse args p i (record_exchange self remote args st) = Inr s"
    by (cases "loop_body parse args p i (record_exchange self remote args st)")
       (auto simp: continues_def)
  have s: "loop_step self remote parse args st = s"
    by (simp add: loop_step_def np body)
  have nr: "\<not> reached_date_limit st" and ne: "p \<noteq> []"
    using assms(1) np by (simp_all add: continues_def)
  show ?thesis
    unfolding s using loop_inv_body[OF assms(2) nr np body] log_inv_body[OF assms(3) np ne body]
    by simp
qed

lemma invs_state_after:
  "(\<forall>j<k. continues self remote parse args (state_after self remote parse args j)) \<Longrightarrow>
   loop_inv parse args (state_after self remote parse args k)
   \<and> log_inv self remote args (state_after self remote parse args k)"
proof (induction k)
  case 0
  show ?case by (simp add: state_after_def loop_inv_initial log_inv_initial)
next
  case (Suc k)
  then have "loop_inv parse args (state_after self remote parse args k)
           \<and> log_inv self remote args (state_after self remote parse args k)" by simp
  moreover have "continues self remote parse args (state_after self remote parse args k)"
    using Suc.prems by simp
  ultimately show ?case
    using loop_step_invs[of self remote parse args "state_after self remote parse args k"]
    by (simp add: state_after_def)
qed

lemma pages_fetched_loop_step:
  assumes "continues self remote parse args st"
  shows "pages_fetched (loop_step self remote parse args st) = pages_fetched st + 1"
proof -
  obtain p i where np: "next_page self remote args st = (p, i)"
    by (cases "next_page self remote args st")
  with assms obtain s where
    body: "loop_body parse args p i (record_exchange self remote args st) = Inr s"
    by (cases "loop_body parse args p i (record_exchange self remote args st)")
       (auto simp: continues_def)
  have "pages_fetched s = pages_fetched st + 1"
    using body by (auto simp: loop_body_eq record_exchange_def split: if_splits)
  then show ?thesis by (simp add: loop_step_def np body)
qed

lemma pages_fetched_state_after:
  "(\<forall>j<k. continues self remote parse args (state_after self remote parse args j)) \<Longrightarrow>
   pages_fetched (state_after self remote parse args k) = k"
proof (induction k)
  case 0
  show ?case by (simp add: state_after_def initial_state_def)
next
  case (Suc k)
  then have "pages_fetched (state_after self remote parse args k) = k" by simp
  moreover have "continues self remote parse args (state_after self remote parse args k)"
    using Suc.prems by simp
  ultimately show ?case
    using pages_fetched_loop_step[of self remote parse args "state_after self remote parse args k"]
    by (simp add: state_after_def)
qed

subsection \<open>Where the fetch ends\<close>

lemma next_page_data:
  "remote (pages_fetched st) (next_request self args st) = PageData d
   \<Longrightarrow> next_page self remote args st
       = (data_messages d, Some \<lparr> lastMessageId = data_lastMessageId d, nextPage = data_nextPage d \<rparr>)"
  by (auto simp: next_page_def fetch_message_page_def next_request_def)

text \<open>
  After \<open>k\<close> full passes the fetch ends at request \<open>k\<close>: with a normal result when
  the page is empty or holds a record older than the start bound behind records that
  parse and are not older, and with \<open>OverflowError\<close> when it holds a record whose date
  overflows behind records that are not older.
\<close>

lemma fetch_stops_at:
  assumes c: "\<forall>j<k. continues self remote parse (normalized_args args)
                    (state_after self remote parse (normalized_args args) j)"
    and hm: "has_more (state_after self remote parse (normalized_args args) k)"
    and nr: "\<not> reached_date_limit (state_after self remote parse (normalized_args args) k)"
    and np: "fst (next_page self remote (normalized_args args)
               (state_after self remote parse (normalized_args args) k)) = []"
  shows "fetch_conversation_messages_with_date_filter self remote parse args
     = Some (Inr (by_date parse
               (filtered_messages (state_after self remote parse (normalized_args args) k)),
             \<lparr> meta_total_fetched =
                  total_fetched (state_after self remote parse (normalized_args args) k),
               meta_total_filtered =
                  length (filtered_messages (state_after self remote parse (normalized_args args) k)),
               meta_pages_fetched = k,
               meta_conversation_id = conversation_id args,
               meta_start_date = map_option ensure_utc (start_date args),
               meta_end_date = map_option ensure_utc (end_date args),
               meta_message_types = message_types args \<rparr>,
             exchanges (state_after self remote parse (normalized_args args) k)
               @ [(next_request self (normalized_args args)
                     (state_after self remote parse (normalized_args args) k),
                   remote k (next_request self (normalized_args args)
                     (state_after self remote parse (normalized_args args) k)))]))"
proof -
  let ?args = "normalized_args args"
  let ?st = "state_after self remote parse ?args k"
  have inv: "loop_inv parse ?args ?st"
    using invs_state_after[OF c] by simp
  obtain i where "next_page self remote ?args ?st = ([], i)"
    using np by (cases "next_page self remote ?args ?st") simp
  then have inv': "loop_inv parse ?args (record_exchange self remote ?args ?st)"
    using inv nr by (intro loop_inv_empty_page) simp_all
  have run: "fetch_loop self remote parse ?args initial_state
               = Some (Inr (record_exchange self remote ?args ?st))"
    using fetch_loop_unroll[OF c] fetch_loop_empty[OF hm nr np] by simp
  have sel: "conversation_id ?args = conversation_id args"
    "start_date ?args = map_option ensure_utc (start_date args)"
    "end_date ?args = map_option ensure_utc (end_date args)"
    "message_types ?args = message_types args"
    by (simp_all add: normalized_args_def)
  have pf: "pages_fetched ?st = k"
    using c by (rule pages_fetched_state_after)
  show ?thesis
    unfolding fetch_conversation_messages_with_date_filter_def run option.case sum.case
      finish_inv[OF inv'] sel
    by (simp add: record_exchange_def pf)
qed

lemma fetch_stops_at_older:
  assumes c: "\<forall>j<k. continues self remote parse (normalized_args args)
                    (state_after self remote parse (normalized_args args) j)"
    and hm: "has_more (state_after self remote parse (normalized_args args) k)"
    and nr: "\<not> reached_date_limit (state_after self remote parse (normalized_args args) k)"
    and rem: "remote k (next_request self (normalized_args args)
                     (state_after self remote parse (normalized_args args) k)) = PageData d"
    and page: "data_messages d = pre @ m # post"
    and pre: "\<forall>x\<in>set pre. dated parse x \<and> \<not> older parse (start_date (normalized_args args)) x"
    and old: "older parse (start_date (normalized_args args)) m"
  shows "fetch_conversation_messages_with_date_filter self remote parse args
     = Some (Inr (by_date parse
               (filtered_messages (state_after self remote parse (normalized_args args) k)
                @ filter (in_range parse (start_date (normalized_args args))
                                         (end_date (normalized_args args))) pre),
             \<lparr> meta_total_fetched =
                  total_fetched (state_after self remote parse (normalized_args args) k)
                  + length (data_messages d),
               meta_total_filtered =
                  length (filtered_messages (state_after self remote parse (normalized_args args) k)
                          @ filter (in_range parse (start_date (normalized_args args))
                                                   (end_date (normalized_args args))) pre),
               meta_pages_fetched = k + 1,
               meta_conversation_id = conversation_id args,
               meta_start_date = map_option ensure_utc (start_date args),
               meta_end_date = map_option ensure_utc (end_date args),
               meta_message_types = message_types args \<rparr>,
             exchanges (state_after self remote parse (normalized_args args) k)
               @ [(next_request self (normalized_args args)
                     (state_after self remote parse (normalized_args args) k), PageData d)]))"
proof -
  let ?args = "normalized_args args"
  let ?st = "state_after self remote parse ?args k"
  let ?i = "Some \<lparr> lastMessageId = data_lastMessageId d, nextPage = data_nextPage d \<rparr>"
  let ?old = "older parse (start_date ?args)"
  have pf: "pages_fetched ?st = k"
    using c by (rule pages_fetched_state_after)
  have np: "next_page self remote ?args ?st = (pre @ m # post, ?i)"
    using next_page_data[of remote ?st self ?args d] rem page by (simp add: pf)
  have tw: "takeWhile (\<lambda>x. \<not> ?old x) (pre @ m # post) = pre"
    using pre old by (simp add: takeWhile_append2)
  obtain s where body: "loop_body parse ?args (pre @ m # post) ?i
                          (record_exchange self remote ?args ?st) = Inr s"
    using pre by (simp add: loop_body_eq tw)
  have fields: "filtered_messages s = filtered_messages ?st
                   @ filter (in_range parse (start_date ?args) (end_date ?args)) pre"
    "reached_date_limit s" "pages_fetched s = k + 1"
    "total_fetched s = total_fetched ?st + length (data_messages d)"
    "exchanges s = exchanges ?st @ [(next_request self ?args ?st, PageData d)]"
    using body pre old rem
    by (auto simp: loop_body_eq tw record_exchange_def pf page split: if_splits)
  have inv: "loop_inv parse ?args s"
    using invs_state_after[OF c] nr np body
    by (intro loop_inv_body[of parse ?args ?st self remote "pre @ m # post" ?i s]) simp_all
  have "fetch_loop self remote parse ?args ?st = fetch_loop self remote parse ?args s"
    using hm nr np body by (intro fetch_loop_continue[where p = "pre @ m # post" and i = ?i]) simp_all
  also have "\<dots> = Some (Inr s)"
    using fields(2) by (simp add: fetch_loop_done)
  finally have run: "fetch_loop self remote parse ?args initial_state = Some (Inr s)"
    using fetch_loop_unroll[OF c] by simp
  have sel: "conversation_id ?args = conversation_id args"
    "start_date ?args = map_option ensure_utc (start_date args)"
    "end_date ?args = map_option ensure_utc (end_date args)"
    "message_types ?args = message_types args"
    by (simp_all add: normalized_args_def)
  show ?thesis
    unfolding fetch_conversation_messages_with_date_filter_def run option.case sum.case
      finish_inv[OF inv] fields
    by (simp add: sel)
qed

lemma fetch_aborts_at_overflow:
  assumes c: "\<forall>j<k. continues self remote parse (normalized_args args)
                    (state_after self remote parse (normalized_args args) j)"
    and hm: "has_more (state_after self remote parse (normalized_args args) k)"
    and nr: "\<not> reached_date_limit (state_after self remote parse (normalized_args args) k)"
    and rem: "remote k (next_request self (normalized_args args)
                     (state_after self remote parse (normalized_args args) k)) = PageData d"
    and page: "data_messages d = pre @ m # post"
    and pre: "\<forall>x\<in>set pre. \<not> older parse (start_date (normalized_args args)) x"
    and over: "date_overflows parse m"
  shows "fetch_conversation_messages_with_date_filter self remote parse args
           = Some (Inl OverflowError)"
proof -
  let ?args = "normalized_args args"
  let ?st = "state_after self remote parse ?args k"
  let ?i = "Some \<lparr> lastMessageId = data_lastMessageId d, nextPage = data_nextPage d \<rparr>"
  let ?old = "older parse (start_date ?args)"
  have pf: "pages_fetched ?st = k"
    using c by (rule pages_fetched_state_after)
  have np: "next_page self remote ?args ?st = (pre @ m # post, ?i)"
    using next_page_data[of remote ?st self ?args d] rem page by (simp add: pf)
  have m: "\<not> dated parse m" "\<not> ?old m"
    using over by (simp_all add: date_overflows_raises dated_def older_def)
  have "m \<in> set (takeWhile (\<lambda>x. \<not> ?old x) (pre @ m # post))"
    using pre m by (simp add: takeWhile_append2)
  with m have body: "loop_body parse ?args (pre @ m # post) ?i
                          (record_exchange self remote ?args ?st) = Inl OverflowError"
    by (auto simp: loop_body_eq)
  have "fetch_loop self remote parse ?args ?st = Some (Inl OverflowError)"
    using hm nr np body by (intro fetch_loop_raise[where p = "pre @ m # post" and i = ?i]) simp_all
  with fetch_loop_unroll[OF c]
  have run: "fetch_loop self remote parse ?args initial_state = Some (Inl OverflowError)"
    by simp
  show ?thesis
    unfolding fetch_conversation_messages_with_date_filter_def run by simp
qed

text \<open>
  Among records served newest first, the ones behind the first record older than the
  start bound are all out of range.
\<close>

lemma newest_first_filter:
  "sorted_wrt (\<lambda>a b. instant (date_of parse b) \<le> instant (date_of parse a)) xs \<Longrightarrow>
   filter (in_range parse S E) (takeWhile (\<lambda>m. \<not> older parse S m) xs)
     = filter (in_range parse S E) xs"
proof (induction xs)
  case Nil
  show ?case by simp
next
  case (Cons x xs)
  show ?case
  proof (cases "older parse S x")
    case False
    with Cons show ?thesis by simp
  next
    case True
    have "\<forall>y\<in>set (x # xs). \<not> in_range parse S E y"
    proof
      fix y assume "y \<in> set (x # xs)"
      then have "instant (date_of parse y) \<le> instant (date_of parse x)"
        using Cons.prems by auto
      with True show "\<not> in_range parse S E y"
        by (auto simp: older_iff in_range_iff split: option.splits)
    qed
    then have "filter (in_range parse S E) (x # xs) = []"
      by (simp only: filter_empty_conv) 
    with True show ?thesis by simp
  qed
qed

subsection \<open>Evaluating the sample conversations\<close>

lemma ex_dates:
  "parse_message_date ex_parse (ex_msg ''t10'' ty) = Inr (Aware 10 0)"
  "parse_message_date ex_parse (ex_msg ''t9'' ty) = Inr (Aware 9 0)"
  "parse_message_date ex_parse (ex_msg ''t8'' ty) = Inr (Aware 8 0)"
  "parse_message_date ex_parse (ex_msg ''t7'' ty) = Inr (Aware 7 0)"
  "parse_message_date ex_parse (ex_msg ''t6'' ty) = Inr (Aware 6 0)"
  by (simp_all add: parse_message_date_def ex_msg_def dict_get_def py_or_def ex_parse_def)


lemma ex_epoch_date: "parse_message_date ex_parse ex_epoch_msg = Inl OverflowError"
  by (simp add: parse_message_date_def ex_epoch_msg_def dict_get_def py_or_def ex_parse_def)

lemmas ex_eval =
  next_page_def fetch_message_page_def loop_body_def record_exchange_def next_request_def
  ex_dates before_start_def is_within_date_range_def after_end_def dt_less_def
  finish_def sort_by_date_def initial_state_def normalized_args_def

lemma ex_state_after_0:
  "state_after self remote parse args 0 = initial_state"
  by (simp add: state_after_def)

lemma ex_state_after_1:
  "state_after self remote parse args (Suc 0) = loop_step self remote parse args initial_state"
  by (simp add: state_after_def)

lemma ex_first_page:
  "remote 0 = (\<lambda>req. PageData ex_page0) \<Longrightarrow>
   loop_step ex_fetcher remote ex_parse (normalized_args ex_args) initial_state
     = \<lparr> filtered_messages = [ex_msg ''t10'' ''TYPE_EMAIL'', ex_msg ''t9'' ''TYPE_SMS''],
         last_message_id = Some ''t9'', has_more = True, total_fetched = 2,
         pages_fetched = 1, reached_date_limit = False,
         exchanges = [(page_request ex_fetcher ''c1'' None 100 (Some [''TYPE_EMAIL'']),
                       PageData ex_page0)] \<rparr>"
  by (simp add: loop_step_def ex_eval ex_args_def ex_page0_def)

lemma ex_first_page_continues:
  "remote 0 = (\<lambda>req. PageData ex_page0) \<Longrightarrow>
   \<forall>j<Suc 0. continues ex_fetcher remote ex_parse (normalized_args ex_args)
                (state_after ex_fetcher remote ex_parse (normalized_args ex_args) j)"
  by (simp add: ex_state_after_0 continues_def ex_eval ex_args_def ex_page0_def)

lemma ex_run_value:
  "fetch_conversation_messages_with_date_filter ex_fetcher ex_remote ex_parse ex_args
    = Some (Inr ([ex_msg ''t8'' ''TYPE_EMAIL'', ex_msg ''t9'' ''TYPE_SMS'', ex_msg ''t10'' ''TYPE_EMAIL''],
             \<lparr> meta_total_fetched = 5, meta_total_filtered = 3, meta_pages_fetched = 2,
               meta_conversation_id = ''c1'', meta_start_date = Some (Aware 8 0),
               meta_end_date = None, meta_message_types = Some [''TYPE_EMAIL''] \<rparr>,
             [(page_request ex_fetcher ''c1'' None 100 (Some [''TYPE_EMAIL'']), PageData ex_page0),
              (page_request ex_fetcher ''c1'' (Some ''t9'') 100 (Some [''TYPE_EMAIL'']),
               PageData ex_page1)]))"
  apply (simp add: fetch_conversation_messages_with_date_filter_def ex_args_def)
  apply (subst fetch_loop.simps)
  apply (simp add: ex_eval ex_remote_def ex_page0_def)
  apply (subst fetch_loop.simps)
  apply (simp add: ex_eval ex_remote_def ex_page1_def)
  apply (subst fetch_loop.simps)
  apply (simp add: ex_eval)
  done

lemma ex_newest_first:
  "newest_first ex_parse
     [(page_request ex_fetcher ''c1'' None 100 (Some [''TYPE_EMAIL'']), PageData ex_page0),
      (page_request ex_fetcher ''c1'' (Some ''t9'') 100 (Some [''TYPE_EMAIL'']), PageData ex_page1)]"
  by (simp add: newest_first_def ex_page0_def ex_page1_def date_of_def ex_dates)

subsection \<open>A failing page request\<close>

text \<open>
  C1, as the code has it. When the request for page \<open>k\<close> fails (the connection
  fails, the status is an error, the body does not decode), the page fetch catches the
  exception and yields an empty page; the loop ends, and the fetch returns normally:
  the messages retained from the \<open>k\<close> pages before, sorted, with the metadata of
  those pages. The failed request is the last one sent.
\<close>

theorem failed_page_ends_fetch:
  assumes "\<forall>j<k. continues self remote parse (normalized_args args)
                    (state_after self remote parse (normalized_args args) j)"
    and "has_more (state_after self remote parse (normalized_args args) k)"
    and "\<not> reached_date_limit (state_after self remote parse (normalized_args args) k)"
    and "request_failed (remote k (next_request self (normalized_args args)
                     (state_after self remote parse (normalized_args args) k)))"
  shows "fetch_conversation_messages_with_date_filter self remote parse args
     = Some (Inr (by_date parse
               (filtered_messages (state_after self remote parse (normalized_args args) k)),
             \<lparr> meta_total_fetched =
                  total_fetched (state_after self remote parse (normalized_args args) k),
               meta_total_filtered =
                  length (filtered_messages (state_after self remote parse (normalized_args args) k)),
               meta_pages_fetched = k,
               meta_conversation_id = conversation_id args,
               meta_start_date = map_option ensure_utc (start_date args),
               meta_end_date = map_option ensure_utc (end_date args),
               meta_message_types = message_types args \<rparr>,
             exchanges (state_after self remote parse (normalized_args args) k)
               @ [(next_request self (normalized_args args)
                     (state_after self remote parse (normalized_args args) k),
                   remote k (next_request self (normalized_args args)
                     (state_after self remote parse (normalized_args args) k)))]))"
proof -
  let ?st = "state_after self remote parse (normalized_args args) k"
  have "fst (next_page self remote (normalized_args args) ?st) = []"
    using assms(4)
    by (cases "remote k (next_request self (normalized_args args) ?st)")
       (simp_all add: next_page_def fetch_message_page_def next_request_def
          pages_fetched_state_after[OF assms(1)])
  from fetch_stops_at[OF assms(1,2,3) this] show ?thesis .
qed

text \<open>One page of two records, then a connection failure.\<close>

theorem failed_page_ends_fetch_witness:
  "fetch_conversation_messages_with_date_filter ex_fetcher ex_remote_failing ex_parse ex_args
     = Some (Inr ([ex_msg ''t9'' ''TYPE_SMS'', ex_msg ''t10'' ''TYPE_EMAIL''],
             \<lparr> meta_total_fetched = 2, meta_total_filtered = 2, meta_pages_fetched = Suc 0,
               meta_conversation_id = ''c1'', meta_start_date = Some (Aware 8 0),
               meta_end_date = None, meta_message_types = Some [''TYPE_EMAIL''] \<rparr>,
             [(page_request ex_fetcher ''c1'' None 100 (Some [''TYPE_EMAIL'']), PageData ex_page0),
              (page_request ex_fetcher ''c1'' (Some ''t9'') 100 (Some [''TYPE_EMAIL'']),
               ConnectionFailed)]))"
proof -
  let ?args = "normalized_args ex_args"
  have r0: "ex_remote_failing 0 = (\<lambda>req. PageData ex_page0)"
    by (simp add: ex_remote_failing_def fun_eq_iff)
  note s1 = ex_first_page[of ex_remote_failing, OF r0]
  note a = ex_first_page_continues[of ex_remote_failing, OF r0]
  have b: "has_more (state_after ex_fetcher ex_remote_failing ex_parse ?args (Suc 0))"
    by (simp add: ex_state_after_1 s1)
  have c: "\<not> reached_date_limit (state_after ex_fetcher ex_remote_failing ex_parse ?args (Suc 0))"
    by (simp add: ex_state_after_1 s1)
  have d: "request_failed (ex_remote_failing (Suc 0) (next_request ex_fetcher ?args
                     (state_after ex_fetcher ex_remote_failing ex_parse ?args (Suc 0))))"
    by (simp add: ex_remote_failing_def)
  have r1: "\<And>req. ex_remote_failing (Suc 0) req = ConnectionFailed"
    by (simp add: ex_remote_failing_def)
  show ?thesis
    using failed_page_ends_fetch[OF a b c d]
    unfolding ex_state_after_1 s1
    by (simp add: by_date_def date_of_def ex_dates ex_args_def next_request_def
        normalized_args_def r1)
qed

text \<open>
  C1 as stated fails: when the second page request meets a connection failure, the fetch
  returns the two records of the first page as an ordinary result.
\<close>

theorem fetch_propagates_error_counterexample:
  "fetch_conversation_messages_with_date_filter ex_fetcher ex_remote_failing ex_parse ex_args
     = Some (Inr ([ex_msg ''t9'' ''TYPE_SMS'', ex_msg ''t10'' ''TYPE_EMAIL''],
             \<lparr> meta_total_fetched = 2, meta_total_filtered = 2, meta_pages_fetched = 1,
               meta_conversation_id = ''c1'', meta_start_date = Some (Aware 8 0),
               meta_end_date = None, meta_message_types = Some [''TYPE_EMAIL''] \<rparr>,
             [(page_request ex_fetcher ''c1'' None 100 (Some [''TYPE_EMAIL'']), PageData ex_page0),
              (page_request ex_fetcher ''c1'' (Some ''t9'') 100 (Some [''TYPE_EMAIL'']),
               ConnectionFailed)]))"
  apply (simp add: fetch_conversation_messages_with_date_filter_def ex_args_def)
  apply (subst fetch_loop.simps)
  apply (simp add: ex_eval ex_remote_failing_def ex_page0_def)
  apply (subst fetch_loop.simps)
  apply (simp add: ex_eval ex_remote_failing_def ex_page0_def)
  done

subsection \<open>An empty page\<close>

text \<open>
  C7. When the request for page \<open>k\<close> is answered with a page of zero records,
  whatever its \<open>nextPage\<close> flag says, the fetch returns: its messages are the ones
  retained from the \<open>k\<close> pages before, sorted, its counts are those of these pages,
  and the request answered with the empty page is the last one sent.
\<close>

theorem empty_page_ends_fetch:
  assumes "\<forall>j<k. continues self remote parse (normalized_args args)
                    (state_after self remote parse (normalized_args args) j)"
    and "has_more (state_after self remote parse (normalized_args args) k)"
    and "\<not> reached_date_limit (state_after self remote parse (normalized_args args) k)"
    and "remote k (next_request self (normalized_args args)
                     (state_after self remote parse (normalized_args args) k)) = PageData d"
    and "data_messages d = []"
  shows "fetch_conversation_messages_with_date_filter self remote parse args
     = Some (Inr (by_date parse
               (filtered_messages (state_after self remote parse (normalized_args args) k)),
             \<lparr> meta_total_fetched =
                  total_fetched (state_after self remote parse (normalized_args args) k),
               meta_total_filtered =
                  length (filtered_messages (state_after self remote parse (normalized_args args) k)),
               meta_pages_fetched = k,
               meta_conversation_id = conversation_id args,
               meta_start_date = map_option ensure_utc (start_date args),
               meta_end_date = map_option ensure_utc (end_date args),
               meta_message_types = message_types args \<rparr>,
             exchanges (state_after self remote parse (normalized_args args) k)
               @ [(next_request self (normalized_args args)
                     (state_after self remote parse (normalized_args args) k), PageData d)]))"
proof -
  let ?st = "state_after self remote parse (normalized_args args) k"
  have "next_page self remote (normalized_args args) ?st
          = ([], Some \<lparr> lastMessageId = data_lastMessageId d, nextPage = data_nextPage d \<rparr>)"
    using next_page_data[of remote ?st self "normalized_args args" d] assms(4,5)
    by (simp add: pages_fetched_state_after[OF assms(1)])
  then have "fst (next_page self remote (normalized_args args) ?st) = []" by simp
  from fetch_stops_at[OF assms(1,2,3) this] assms(4) show ?thesis by simp
qed

text \<open>One page of two records, then an empty page flagged \<open>nextPage\<close>.\<close>

theorem empty_page_ends_fetch_witness:
  "fetch_conversation_messages_with_date_filter ex_fetcher ex_remote_empty ex_parse ex_args
     = Some (Inr ([ex_msg ''t9'' ''TYPE_SMS'', ex_msg ''t10'' ''TYPE_EMAIL''],
             \<lparr> meta_total_fetched = 2, meta_total_filtered = 2, meta_pages_fetched = Suc 0,
               meta_conversation_id = ''c1'', meta_start_date = Some (Aware 8 0),
               meta_end_date = None, meta_message_types = Some [''TYPE_EMAIL''] \<rparr>,
             [(page_request ex_fetcher ''c1'' None 100 (Some [''TYPE_EMAIL'']), PageData ex_page0),
              (page_request ex_fetcher ''c1'' (Some ''t9'') 100 (Some [''TYPE_EMAIL'']),
               PageData ex_empty_page)]))
   \<and> data_nextPage ex_empty_page"
proof -
  let ?args = "normalized_args ex_args"
  have r0: "ex_remote_empty 0 = (\<lambda>req. PageData ex_page0)"
    by (simp add: ex_remote_empty_def fun_eq_iff)
  note s1 = ex_first_page[of ex_remote_empty, OF r0]
  note a = ex_first_page_continues[of ex_remote_empty, OF r0]
  have b: "has_more (state_after ex_fetcher ex_remote_empty ex_parse ?args (Suc 0))"
    by (simp add: ex_state_after_1 s1)
  have c: "\<not> reached_date_limit (state_after ex_fetcher ex_remote_empty ex_parse ?args (Suc 0))"
    by (simp add: ex_state_after_1 s1)
  have d: "ex_remote_empty (Suc 0) (next_request ex_fetcher ?args
                     (state_after ex_fetcher ex_remote_empty ex_parse ?args (Suc 0)))
            = PageData ex_empty_page"
    by (simp add: ex_remote_empty_def)
  have e: "data_messages ex_empty_page = []"
    by (simp add: ex_empty_page_def)
  show ?thesis
    using empty_page_ends_fetch[OF a b c d e]
    unfolding ex_state_after_1 s1
    by (simp add: by_date_def date_of_def ex_dates ex_args_def next_request_def normalized_args_def)
       (simp add: ex_empty_page_def)
qed

subsection \<open>What the fetch returns\<close>

text \<open>
  C3, as the code has it. First, for a fetch that returns \<open>msgs\<close> after the exchanges
  \<open>ex\<close>: \<open>msgs\<close> is the stable sort by date of the scanned records that lie within
  the inclusive range \<open>[start_date, end_date]\<close> of UTC instants, each bound
  unconstrained when absent; it holds exactly those records, and it is ascending by
  instant. Where the remote served its records newest first, these are all the served
  records within the range. The type filter plays no part in what is retained: every
  request of the fetch is the page request that carries the filter, joined by commas, as
  its \<open>type\<close> parameter (and no such parameter when no filter is given), and each is
  paired with the remote's answer to it. No page is requested after a page that holds a
  record older than \<open>start_date\<close>. Second, the iteration does stop there: when the
  page answering request \<open>k\<close> holds a record \<open>m\<close> strictly earlier than
  \<open>start_date\<close>, behind records \<open>pre\<close> that are not, the fetch returns after
  exactly \<open>k + 1\<close> requests, and what it returns is made of the records retained
  before and of \<open>pre\<close>; the records \<open>post\<close> behind \<open>m\<close> are not looked at. Last,
  what being within the range and being older than the start bound mean.
\<close>

theorem fetch_result_in_range_sorted:
  "(fetch_conversation_messages_with_date_filter self remote parse args
        = Some (Inr (msgs, meta, ex))
      \<longrightarrow> msgs = by_date parse
                  (filter (in_range parse (start_date (normalized_args args))
                                          (end_date (normalized_args args)))
                     (scanned parse (start_date (normalized_args args)) ex))
        \<and> mset msgs = mset (filter (in_range parse (start_date (normalized_args args))
                                                    (end_date (normalized_args args)))
                               (scanned parse (start_date (normalized_args args)) ex))
        \<and> sorted (map (\<lambda>m. instant (date_of parse m)) msgs)
        \<and> (newest_first parse ex \<longrightarrow>
             mset msgs = mset (filter (in_range parse (start_date (normalized_args args))
                                                      (end_date (normalized_args args)))
                                 (concat (map served_page ex))))
        \<and> conversation_log self remote args 0 None ex
        \<and> (\<forall>x\<in>set ex. param_type (fst x)
              = (case message_types args of
                   None \<Rightarrow> None
                 | Some ts \<Rightarrow> if ts = [] then None else Some (join '','' ts)))
        \<and> (\<forall>ps p qs. map served_page ex = ps @ p # qs
              \<and> (\<exists>x\<in>set p. older parse (start_date (normalized_args args)) x)
              \<longrightarrow> qs = []))
   \<and> ((\<forall>j<k. continues self remote parse (normalized_args args)
                 (state_after self remote parse (normalized_args args) j))
       \<and> has_more (state_after self remote parse (normalized_args args) k)
       \<and> \<not> reached_date_limit (state_after self remote parse (normalized_args args) k)
       \<and> remote k (next_request self (normalized_args args)
                     (state_after self remote parse (normalized_args args) k)) = PageData d
       \<and> data_messages d = pre @ m # post
       \<and> (\<forall>x\<in>set pre. dated parse x \<and> \<not> older parse (start_date (normalized_args args)) x)
       \<and> older parse (start_date (normalized_args args)) m
      \<longrightarrow> fetch_conversation_messages_with_date_filter self remote parse args
           = Some (Inr (by_date parse
                 (filtered_messages (state_after self remote parse (normalized_args args) k)
                  @ filter (in_range parse (start_date (normalized_args args))
                                           (end_date (normalized_args args))) pre),
               \<lparr> meta_total_fetched =
                    total_fetched (state_after self remote parse (normalized_args args) k)
                    + length (data_messages d),
                 meta_total_filtered =
                    length (filtered_messages (state_after self remote parse (normalized_args args) k)
                            @ filter (in_range parse (start_date (normalized_args args))
                                                     (end_date (normalized_args args))) pre),
                 meta_pages_fetched = k + 1,
                 meta_conversation_id = conversation_id args,
                 meta_start_date = map_option ensure_utc (start_date args),
                 meta_end_date = map_option ensure_utc (end_date args),
                 meta_message_types = message_types args \<rparr>,
               exchanges (state_after self remote parse (normalized_args args) k)
                 @ [(next_request self (normalized_args args)
                       (state_after self remote parse (normalized_args args) k), PageData d)])))
   \<and> (\<forall>x. in_range parse (start_date (normalized_args args)) (end_date (normalized_args args)) x
          \<longleftrightarrow> dated parse x
              \<and> (case start_date (normalized_args args) of None \<Rightarrow> True
                  | Some sd \<Rightarrow> instant sd \<le> instant (date_of parse x))
              \<and> (case end_date (normalized_args args) of None \<Rightarrow> True
                  | Some ed \<Rightarrow> instant (date_of parse x) \<le> instant ed))
   \<and> (\<forall>x. older parse (start_date (normalized_args args)) x
          \<longleftrightarrow> dated parse x
              \<and> (case start_date (normalized_args args) of None \<Rightarrow> False
                  | Some sd \<Rightarrow> instant (date_of parse x) < instant sd))"
proof (intro conjI impI allI)
  let ?S = "start_date (normalized_args args)"
  let ?E = "end_date (normalized_args args)"
  assume run: "fetch_conversation_messages_with_date_filter self remote parse args
        = Some (Inr (msgs, meta, ex))"
  from fetch_loop_inv_final[OF run] obtain st where
    inv: "loop_inv parse (normalized_args args) st" and ex: "exchanges st = ex"
    and msgs: "msgs = by_date parse (filtered_messages st)"
    and log: "conversation_log self remote args 0 None ex"
    by blast
  have kept: "filtered_messages st = filter (in_range parse ?S ?E) (scanned parse ?S ex)"
    using inv ex by (simp add: loop_inv_def)
  show 1: "msgs = by_date parse (filter (in_range parse ?S ?E) (scanned parse ?S ex))"
    using msgs kept by simp
  show 2: "mset msgs = mset (filter (in_range parse ?S ?E) (scanned parse ?S ex))"
    unfolding 1 by (simp add: by_date_def)
  show "sorted (map (\<lambda>m. instant (date_of parse m)) msgs)"
    unfolding msgs by (simp add: by_date_def)
  show "conversation_log self remote args 0 None ex"
    by (rule log)
  show "\<forall>x\<in>set ex. param_type (fst x)
              = (case message_types args of
                   None \<Rightarrow> None
                 | Some ts \<Rightarrow> if ts = [] then None else Some (join '','' ts))"
    using log by (rule conversation_log_types)
  {
    assume "newest_first parse ex"
    then have "filter (in_range parse ?S ?E) (scanned parse ?S ex)
        = filter (in_range parse ?S ?E) (concat (map served_page ex))"
      unfolding newest_first_def scanned_def by (rule newest_first_filter)
    with 2 show "mset msgs = mset (filter (in_range parse ?S ?E) (concat (map served_page ex)))"
      by simp
  }
  {
    fix ps p qs
    assume h: "map served_page ex = ps @ p # qs \<and> (\<exists>x\<in>set p. older parse ?S x)"
    show "qs = []"
    proof (rule ccontr)
      assume "qs \<noteq> []"
      then have "p \<in> set (butlast (map served_page ex))"
        using h by (simp add: butlast_append)
      then have "\<forall>x\<in>set p. \<not> older parse ?S x"
        using inv ex by (simp add: loop_inv_def)
      with h show False by blast
    qed
  }
next
  assume h: "(\<forall>j<k. continues self remote parse (normalized_args args)
                 (state_after self remote parse (normalized_args args) j))
       \<and> has_more (state_after self remote parse (normalized_args args) k)
       \<and> \<not> reached_date_limit (state_after self remote parse (normalized_args args) k)
       \<and> remote k (next_request self (normalized_args args)
                     (state_after self remote parse (normalized_args args) k)) = PageData d
       \<and> data_messages d = pre @ m # post
       \<and> (\<forall>x\<in>set pre. dated parse x \<and> \<not> older parse (start_date (normalized_args args)) x)
       \<and> older parse (start_date (normalized_args args)) m"
  show "fetch_conversation_messages_with_date_filter self remote parse args
           = Some (Inr (by_date parse
                 (filtered_messages (state_after self remote parse (normalized_args args) k)
                  @ filter (in_range parse (start_date (normalized_args args))
                                           (end_date (normalized_args args))) pre),
               \<lparr> meta_total_fetched =
                    total_fetched (state_after self remote parse (normalized_args args) k)
                    + length (data_messages d),
                 meta_total_filtered =
                    length (filtered_messages (state_after self remote parse (normalized_args args) k)
                            @ filter (in_range parse (start_date (normalized_args args))
                                                     (end_date (normalized_args args))) pre),
                 meta_pages_fetched = k + 1,
                 meta_conversation_id = conversation_id args,
                 meta_start_date = map_option ensure_utc (start_date args),
                 meta_end_date = map_option ensure_utc (end_date args),
                 meta_message_types = message_types args \<rparr>,
               exchanges (state_after self remote parse (normalized_args args) k)
                 @ [(next_request self (normalized_args args)
                       (state_after self remote parse (normalized_args args) k), PageData d)]))"
    using h by (intro fetch_stops_at_older[where m = m and post = post]) blast+
next
  fix x
  show "in_range parse (start_date (normalized_args args)) (end_date (normalized_args args)) x
          \<longleftrightarrow> dated parse x
              \<and> (case start_date (normalized_args args) of None \<Rightarrow> True
                  | Some sd \<Rightarrow> instant sd \<le> instant (date_of parse x))
              \<and> (case end_date (normalized_args args) of None \<Rightarrow> True
                  | Some ed \<Rightarrow> instant (date_of parse x) \<le> instant ed)"
    by (rule in_range_iff)
next
  fix x
  show "older parse (start_date (normalized_args args)) x
          \<longleftrightarrow> dated parse x
              \<and> (case start_date (normalized_args args) of None \<Rightarrow> False
                  | Some sd \<Rightarrow> instant (date_of parse x) < instant sd)"
    by (rule older_iff)
qed

text \<open>
  The scenario of pages t10, t9 and t8, t7, t6 with \<open>start_date = 8\<close>: the loop stops
  at t7 without looking at t6 or asking for a third page, and t8, t9, t10 are returned.
  Both requests carry \<open>type=TYPE_EMAIL\<close>.
\<close>

theorem fetch_result_in_range_sorted_witness:
  "fetch_conversation_messages_with_date_filter ex_fetcher ex_remote ex_parse ex_args
     = Some (Inr ([ex_msg ''t8'' ''TYPE_EMAIL'', ex_msg ''t9'' ''TYPE_SMS'', ex_msg ''t10'' ''TYPE_EMAIL''],
             \<lparr> meta_total_fetched = 5, meta_total_filtered = 3, meta_pages_fetched = 2,
               meta_conversation_id = ''c1'', meta_start_date = Some (Aware 8 0),
               meta_end_date = None, meta_message_types = Some [''TYPE_EMAIL''] \<rparr>,
             [(page_request ex_fetcher ''c1'' None 100 (Some [''TYPE_EMAIL'']), PageData ex_page0),
              (page_request ex_fetcher ''c1'' (Some ''t9'') 100 (Some [''TYPE_EMAIL'']),
               PageData ex_page1)]))
   \<and> mset [ex_msg ''t8'' ''TYPE_EMAIL'', ex_msg ''t9'' ''TYPE_SMS'', ex_msg ''t10'' ''TYPE_EMAIL'']
       = mset (filter (in_range ex_parse (Some (Aware 8 0)) None)
                 [ex_msg ''t10'' ''TYPE_EMAIL'', ex_msg ''t9'' ''TYPE_SMS'',
                  ex_msg ''t8'' ''TYPE_EMAIL'', ex_msg ''t7'' ''TYPE_EMAIL'',
                  ex_msg ''t6'' ''TYPE_EMAIL''])
   \<and> conversation_log ex_fetcher ex_remote ex_args 0 None
        [(page_request ex_fetcher ''c1'' None 100 (Some [''TYPE_EMAIL'']), PageData ex_page0),
         (page_request ex_fetcher ''c1'' (Some ''t9'') 100 (Some [''TYPE_EMAIL'']),
          PageData ex_page1)]
   \<and> param_type (page_request ex_fetcher ''c1'' None 100 (Some [''TYPE_EMAIL'']))
        = Some ''TYPE_EMAIL''
   \<and> param_type (page_request ex_fetcher ''c1'' (Some ''t9'') 100 (Some [''TYPE_EMAIL'']))
        = Some ''TYPE_EMAIL''"
proof -
  let ?args = "normalized_args ex_args"
  let ?msgs = "[ex_msg ''t8'' ''TYPE_EMAIL'', ex_msg ''t9'' ''TYPE_SMS'', ex_msg ''t10'' ''TYPE_EMAIL'']"
  let ?meta = "\<lparr> meta_total_fetched = 5, meta_total_filtered = 3, meta_pages_fetched = 2,
               meta_conversation_id = ''c1'', meta_start_date = Some (Aware 8 0),
               meta_end_date = None, meta_message_types = Some [''TYPE_EMAIL''] \<rparr>"
  let ?ex = "[(page_request ex_fetcher ''c1'' None 100 (Some [''TYPE_EMAIL'']), PageData ex_page0),
              (page_request ex_fetcher ''c1'' (Some ''t9'') 100 (Some [''TYPE_EMAIL'']),
               PageData ex_page1)]"
  note T = fetch_result_in_range_sorted[where self = ex_fetcher and remote = ex_remote
      and parse = ex_parse and args = ex_args and msgs = ?msgs and meta = ?meta and ex = ?ex
      and k = "Suc 0" and d = ex_page1 and pre = "[ex_msg ''t8'' ''TYPE_EMAIL'']"
      and m = "ex_msg ''t7'' ''TYPE_EMAIL''" and post = "[ex_msg ''t6'' ''TYPE_EMAIL'']"]
  have r0: "ex_remote 0 = (\<lambda>req. PageData ex_page0)"
    by (simp add: ex_remote_def fun_eq_iff)
  note s1 = ex_first_page[of ex_remote, OF r0]
  have args: "start_date ?args = Some (Aware 8 0)" "end_date ?args = None"
    by (simp_all add: normalized_args_def ex_args_def)
  have hyps: "(\<forall>j<Suc 0. continues ex_fetcher ex_remote ex_parse ?args
                 (state_after ex_fetcher ex_remote ex_parse ?args j))
       \<and> has_more (state_after ex_fetcher ex_remote ex_parse ?args (Suc 0))
       \<and> \<not> reached_date_limit (state_after ex_fetcher ex_remote ex_parse ?args (Suc 0))
       \<and> ex_remote (Suc 0) (next_request ex_fetcher ?args
                     (state_after ex_fetcher ex_remote ex_parse ?args (Suc 0))) = PageData ex_page1
       \<and> data_messages ex_page1
           = [ex_msg ''t8'' ''TYPE_EMAIL''] @ ex_msg ''t7'' ''TYPE_EMAIL'' # [ex_msg ''t6'' ''TYPE_EMAIL'']
       \<and> (\<forall>x\<in>set [ex_msg ''t8'' ''TYPE_EMAIL''].
             dated ex_parse x \<and> \<not> older ex_parse (start_date ?args) x)
       \<and> older ex_parse (start_date ?args) (ex_msg ''t7'' ''TYPE_EMAIL'')"
    unfolding args
    using ex_first_page_continues[of ex_remote, OF r0]
    by (simp add: ex_state_after_1 s1 ex_remote_def ex_page1_def dated_def older_def ex_dates
        before_start_def dt_less_def)
  have run: "fetch_conversation_messages_with_date_filter ex_fetcher ex_remote ex_parse ex_args
               = Some (Inr (?msgs, ?meta, ?ex))"
    using T[THEN conjunct2, THEN conjunct1, rule_format, OF hyps]
    unfolding ex_state_after_1 s1 args
    by (simp add: by_date_def date_of_def ex_dates in_range_def is_within_date_range_def
        before_start_def after_end_def dt_less_def ex_page1_def ex_args_def next_request_def
        normalized_args_def)
  note A = T[THEN conjunct1, rule_format, OF run]
  have nf: "newest_first ex_parse ?ex"
    by (rule ex_newest_first)
  have all: "mset ?msgs = mset (filter (in_range ex_parse (Some (Aware 8 0)) None)
                                  (concat (map served_page ?ex)))"
    using A nf unfolding args by blast
  have log: "conversation_log ex_fetcher ex_remote ex_args 0 None ?ex"
    using A by blast
  have types: "\<forall>x\<in>set ?ex. param_type (fst x)
              = (case message_types ex_args of
                   None \<Rightarrow> None
                 | Some ts \<Rightarrow> if ts = [] then None else Some (join '','' ts))"
    using A by blast
  have pages: "concat (map served_page ?ex)
      = [ex_msg ''t10'' ''TYPE_EMAIL'', ex_msg ''t9'' ''TYPE_SMS'',
         ex_msg ''t8'' ''TYPE_EMAIL'', ex_msg ''t7'' ''TYPE_EMAIL'', ex_msg ''t6'' ''TYPE_EMAIL'']"
    by (simp add: ex_page0_def ex_page1_def)
  have t0: "param_type (page_request ex_fetcher ''c1'' None 100 (Some [''TYPE_EMAIL'']))
        = Some ''TYPE_EMAIL''"
    and t1: "param_type (page_request ex_fetcher ''c1'' (Some ''t9'') 100 (Some [''TYPE_EMAIL'']))
        = Some ''TYPE_EMAIL''"
    using types by (simp_all add: ex_args_def)
  show ?thesis
    by (intro conjI) (rule run, rule all[unfolded pages], rule log, rule t0, rule t1)
qed

text \<open>
  C3 as stated fails where the remote serves a record whose type is not in the filter:
  the remote serves t10, t9, t8, t7, t6, newest first, and with the filter
  \<open>TYPE_EMAIL\<close> the \<open>TYPE_SMS\<close> message t9 is returned.
\<close>

theorem type_filter_counterexample:
  "fetch_conversation_messages_with_date_filter ex_fetcher ex_remote ex_parse ex_args
     = Some (Inr ([ex_msg ''t8'' ''TYPE_EMAIL'', ex_msg ''t9'' ''TYPE_SMS'', ex_msg ''t10'' ''TYPE_EMAIL''],
             \<lparr> meta_total_fetched = 5, meta_total_filtered = 3, meta_pages_fetched = 2,
               meta_conversation_id = ''c1'', meta_start_date = Some (Aware 8 0),
               meta_end_date = None, meta_message_types = Some [''TYPE_EMAIL''] \<rparr>,
             [(page_request ex_fetcher ''c1'' None 100 (Some [''TYPE_EMAIL'']), PageData ex_page0),
              (page_request ex_fetcher ''c1'' (Some ''t9'') 100 (Some [''TYPE_EMAIL'']),
               PageData ex_page1)]))
   \<and> newest_first ex_parse
        [(page_request ex_fetcher ''c1'' None 100 (Some [''TYPE_EMAIL'']), PageData ex_page0),
         (page_request ex_fetcher ''c1'' (Some ''t9'') 100 (Some [''TYPE_EMAIL'']),
          PageData ex_page1)]
   \<and> map (\<lambda>m. instant (date_of ex_parse m)) (data_messages ex_page0 @ data_messages ex_page1)
        = [10, 9, 8, 7, 6]
   \<and> message_types ex_args = Some [''TYPE_EMAIL'']
   \<and> dict_get (ex_msg ''t9'' ''TYPE_SMS'') ''type'' = JStr ''TYPE_SMS''
   \<and> \<not> matches_type_filter (message_types ex_args) (ex_msg ''t9'' ''TYPE_SMS'')"
proof (intro conjI)
  show "fetch_conversation_messages_with_date_filter ex_fetcher ex_remote ex_parse ex_args
     = Some (Inr ([ex_msg ''t8'' ''TYPE_EMAIL'', ex_msg ''t9'' ''TYPE_SMS'', ex_msg ''t10'' ''TYPE_EMAIL''],
             \<lparr> meta_total_fetched = 5, meta_total_filtered = 3, meta_pages_fetched = 2,
               meta_conversation_id = ''c1'', meta_start_date = Some (Aware 8 0),
               meta_end_date = None, meta_message_types = Some [''TYPE_EMAIL''] \<rparr>,
             [(page_request ex_fetcher ''c1'' None 100 (Some [''TYPE_EMAIL'']), PageData ex_page0),
              (page_request ex_fetcher ''c1'' (Some ''t9'') 100 (Some [''TYPE_EMAIL'']),
               PageData ex_page1)]))"
    by (rule ex_run_value)
  show "newest_first ex_parse
        [(page_request ex_fetcher ''c1'' None 100 (Some [''TYPE_EMAIL'']), PageData ex_page0),
         (page_request ex_fetcher ''c1'' (Some ''t9'') 100 (Some [''TYPE_EMAIL'']),
          PageData ex_page1)]"
    by (rule ex_newest_first)
  show "map (\<lambda>m. instant (date_of ex_parse m)) (data_messages ex_page0 @ data_messages ex_page1)
        = [10, 9, 8, 7, 6]"
    by (simp add: ex_page0_def ex_page1_def date_of_def ex_dates)
  show "message_types ex_args = Some [''TYPE_EMAIL'']"
    by (simp add: ex_args_def)
  show "dict_get (ex_msg ''t9'' ''TYPE_SMS'') ''type'' = JStr ''TYPE_SMS''"
    by (simp add: ex_msg_def dict_get_def)
  show "\<not> matches_type_filter (message_types ex_args) (ex_msg ''t9'' ''TYPE_SMS'')"
    by (simp add: matches_type_filter_def ex_args_def ex_msg_def dict_get_def)
qed

subsection \<open>Messages without a usable date\<close>




text \<open>
  A date that makes the parser raise \<open>OverflowError\<close> is not given
  \<open>datetime.min\<close>: with the page t10, epoch milliseconds, t9 the fetch raises.
\<close>

lemma epoch_date_aborts_fetch:
  "fetch_conversation_messages_with_date_filter ex_fetcher ex_remote_epoch ex_parse ex_args
     = Some (Inl OverflowError)"
  apply (simp add: fetch_conversation_messages_with_date_filter_def ex_args_def)
  apply (subst fetch_loop.simps)
  apply (simp add: ex_eval ex_remote_epoch_def ex_page_epoch_def ex_epoch_date)
  done

section \<open>Properties of the OAuth client\<close>

subsection \<open>Base64url and URL quoting\<close>

lemma length_alphabet: "length b64url_alphabet = 64"
  by (simp add: b64url_alphabet_def)

lemma b64_char_in: "b64_char i \<in> set b64url_alphabet"
  by (simp add: b64_char_def length_alphabet)

lemma eq_notin: "CHR ''='' \<notin> set b64url_alphabet"
  by (simp add: b64url_alphabet_def)

lemma b64_char_not_pad: "b64_char i \<noteq> CHR ''=''"
  using b64_char_in[of i] eq_notin by metis

lemma set_nopad: "set (base64url_nopad bs) \<subseteq> set b64url_alphabet"
  by (induction bs rule: base64url_nopad.induct) (simp_all add: b64_char_in)

lemma length_nopad: "length (base64url_nopad bs) = (4 * length bs + 2) div 3"
  by (induction bs rule: base64url_nopad.induct) simp_all

lemma rstrip_append:
  "rstrip c (xs @ ys) = (if \<forall>y\<in>set ys. y = c then rstrip c xs else xs @ rstrip c ys)"
  by (simp add: rstrip_def dropWhile_append)

lemma rstrip_b64: "rstrip CHR ''='' (urlsafe_b64encode bs) = base64url_nopad bs"
proof (induction bs rule: urlsafe_b64encode.induct)
  case 1
  show ?case by (simp add: rstrip_def)
next
  case (2 a)
  show ?case by (simp add: rstrip_def b64_char_not_pad)
next
  case (3 a b)
  show ?case by (simp add: rstrip_def b64_char_not_pad)
next
  case (4 a b c rest)
  show ?case
  proof (cases rest)
    case Nil
    then show ?thesis by (simp add: rstrip_def b64_char_not_pad)
  next
    case (Cons r rs)
    then have "\<not> (\<forall>y\<in>set (urlsafe_b64encode rest). y = CHR ''='')"
      by (cases rs; cases "tl rs") (auto simp: b64_char_not_pad)
    then have "rstrip CHR ''='' ([b64_char (unat a div 4), b64_char (unat a mod 4 * 16 + unat b div 16),
          b64_char (unat b mod 16 * 4 + unat c div 64), b64_char (unat c mod 64)]
          @ urlsafe_b64encode rest)
       = [b64_char (unat a div 4), b64_char (unat a mod 4 * 16 + unat b div 16),
          b64_char (unat b mod 16 * 4 + unat c div 64), b64_char (unat c mod 64)]
          @ rstrip CHR ''='' (urlsafe_b64encode rest)"
      by (subst rstrip_append) auto
    with 4 show ?thesis by simp
  qed
qed

lemma length_token_bytes: "length (token_bytes entropy n) = n"
  by (simp add: token_bytes_def)

lemma always_safe_b64: "c \<in> set b64url_alphabet \<Longrightarrow> always_safe c"
  by (auto simp: b64url_alphabet_def always_safe_def)

lemma hex_value_digit: "n < 16 \<Longrightarrow> hex_value (hex_digit n) = Some n"
  by (auto simp: hex_value_def hex_digit_def Let_def)

lemma hex_digit_not_sep:
  "n < 16 \<Longrightarrow> hex_digit n \<noteq> CHR ''&'' \<and> hex_digit n \<noteq> CHR ''=''"
proof -
  assume "n < 16"
  then have "hex_value (hex_digit n) = Some n" by (rule hex_value_digit)
  moreover have "hex_value CHR ''&'' = None" "hex_value CHR ''='' = None"
    by (simp_all add: hex_value_def)
  ultimately show ?thesis by auto
qed

lemma of_char_div16: "(of_char c :: nat) div 16 < 16"
  using nat_of_char_less_256[of c] by arith

lemma safe_not_special:
  "always_safe c \<Longrightarrow> c \<noteq> CHR ''+'' \<and> c \<noteq> CHR ''%'' \<and> c \<noteq> CHR ''&'' \<and> c \<noteq> CHR ''=''"
  by (auto simp: always_safe_def)

lemma quote_plus_char_no_sep:
  "CHR ''&'' \<notin> set (quote_plus_char c) \<and> CHR ''='' \<notin> set (quote_plus_char c)"
  using safe_not_special[of c] hex_digit_not_sep[OF of_char_div16[of c]]
    hex_digit_not_sep[of "of_char c mod 16"]
  by (auto simp: quote_plus_char_def)

lemma quote_plus_no_sep:
  "CHR ''&'' \<notin> set (quote_plus s) \<and> CHR ''='' \<notin> set (quote_plus s)"
  using quote_plus_char_no_sep by (auto simp: quote_plus_def)

lemma unquote_quote_char:
  "unquote_plus (quote_plus_char c @ rest) = c # unquote_plus rest"
proof -
  have "char_of (16 * ((of_char c :: nat) div 16) + of_char c mod 16) = c"
    by simp
  then show ?thesis
    using safe_not_special[of c] hex_value_digit[OF of_char_div16[of c]]
      hex_value_digit[of "of_char c mod 16"]
    by (auto simp: quote_plus_char_def)
qed

lemma unquote_quote_append: "unquote_plus (quote_plus s @ rest) = s @ unquote_plus rest"
  by (induction s) (simp_all add: quote_plus_def unquote_quote_char)

lemma unquote_quote: "unquote_plus (quote_plus s) = s"
  using unquote_quote_append[of s "[]"] by simp

lemma split_on_clean: "c \<notin> set w \<Longrightarrow> split_on c (w @ c # rest) = w # split_on c rest"
  by (induction w) auto

lemma split_on_single: "c \<notin> set w \<Longrightarrow> split_on c w = [w]"
  by (induction w) auto

lemma split_on_join:
  "fs \<noteq> [] \<Longrightarrow> \<forall>f\<in>set fs. c \<notin> set f \<Longrightarrow> split_on c (join [c] fs) = fs"
  by (induction "[c]" fs rule: join.induct) (simp_all add: split_on_single split_on_clean)

lemma parse_field_quote:
  "parse_field (quote_plus k @ CHR ''='' # quote_plus v) = (k, v)"
proof -
  have "\<And>x. x \<in> set (quote_plus k) \<Longrightarrow> x \<noteq> CHR ''=''"
    using quote_plus_no_sep[of k] by auto
  then have "takeWhile (\<lambda>x. x \<noteq> CHR ''='') (quote_plus k @ CHR ''='' # quote_plus v)
               = quote_plus k"
    by (simp add: takeWhile_append2)
  then show ?thesis
    by (simp add: parse_field_def Let_def unquote_quote)
qed

lemma field_no_amp: "CHR ''&'' \<notin> set (quote_plus k @ ''='' @ quote_plus v)"
  using quote_plus_no_sep[of k] quote_plus_no_sep[of v] by simp

lemma join_nonempty: "fs \<noteq> [] \<Longrightarrow> \<forall>f\<in>set fs. f \<noteq> [] \<Longrightarrow> join sep fs \<noteq> []"
  by (induction sep fs rule: join.induct) simp_all

lemma parse_qsl_urlencode: "parse_qsl (urlencode params) = params"
proof (cases params)
  case Nil
  then show ?thesis by (simp add: parse_qsl_def urlencode_def)
next
  case (Cons p ps)
  let ?fs = "map (\<lambda>(k, v). quote_plus k @ ''='' @ quote_plus v) params"
  have ne: "?fs \<noteq> []" using Cons by simp
  have clean: "\<forall>f\<in>set ?fs. CHR ''&'' \<notin> set f"
    using field_no_amp by auto
  have nonempty: "\<forall>f\<in>set ?fs. f \<noteq> []" by auto
  have "join ''&'' ?fs \<noteq> []" using ne nonempty by (rule join_nonempty)
  moreover have "split_on CHR ''&'' (join ''&'' ?fs) = ?fs"
    using ne clean by (rule split_on_join)
  moreover have "map parse_field ?fs = params"
    by (induction params) (auto simp: parse_field_quote)
  ultimately show ?thesis by (simp add: parse_qsl_def urlencode_def)
qed

lemma ex_generated:
  "generate_pkce_params ex_digest ex_entropy ex_entropy self
     = self\<lparr> code_verifier := Some ''AQgPFh0kKzI5QEdOVVxjanF4f4aNlJuiqbC3vsXM09o'',
              code_challenge := Some ''KysrKysrKysrKysrKysrKysrKysrKysrKysrKysrKys'',
              state := Some ''AQgPFh0kKzI5QEdOVVxjanF4f4aNlJuiqbC3vsXM09o'' \<rparr>"
proof -
  have v: "rstrip CHR ''='' (urlsafe_b64encode (token_bytes ex_entropy 32))
             = ''AQgPFh0kKzI5QEdOVVxjanF4f4aNlJuiqbC3vsXM09o''"
    by code_simp
  have c: "rstrip CHR ''='' (urlsafe_b64encode
              (ex_digest (encode_utf8 ''AQgPFh0kKzI5QEdOVVxjanF4f4aNlJuiqbC3vsXM09o'')))
             = ''KysrKysrKysrKysrKysrKysrKysrKysrKysrKysrKys''"
    by code_simp
  show ?thesis
    by (simp add: generate_pkce_params_def Let_def token_urlsafe_def v c)
qed

subsection \<open>The PKCE generator\<close>

text \<open>
  C6. Whatever the entropy, the client and the digest function in the place of
  \<open>hashlib.sha256\<close>, the generated verifier is the unpadded base64url text of 32
  bytes: 43 characters, so within 43 to 128, all from the URL-safe alphabet and all left
  unquoted in a URL; the challenge is the unpadded base64url text of the digest of the
  verifier's bytes; and every run that yields the same verifier yields the same
  challenge.
\<close>

theorem pkce_generator:
  "\<exists>v ch. code_verifier (generate_pkce_params sha256 entropy1 entropy2 self) = Some v
      \<and> code_challenge (generate_pkce_params sha256 entropy1 entropy2 self) = Some ch
      \<and> v = base64url_nopad (token_bytes entropy1 32)
      \<and> length v = 43 \<and> 43 \<le> length v \<and> length v \<le> 128
      \<and> set v \<subseteq> set b64url_alphabet
      \<and> (\<forall>c \<in> set v. always_safe c)
      \<and> ch = base64url_nopad (sha256 (encode_utf8 v))
      \<and> (\<forall>entropy1' entropy2' self'.
            code_verifier (generate_pkce_params sha256 entropy1' entropy2' self') = Some v
            \<longrightarrow> code_challenge (generate_pkce_params sha256 entropy1' entropy2' self') = Some ch)"
proof -
  let ?v = "base64url_nopad (token_bytes entropy1 32)"
  have len: "length ?v = 43"
    by (simp add: length_nopad length_token_bytes)
  have chars: "set ?v \<subseteq> set b64url_alphabet" by (rule set_nopad)
  then have safe: "\<forall>c \<in> set ?v. always_safe c"
    using always_safe_b64 by blast
  show ?thesis
    using len chars safe
    by (auto simp: generate_pkce_params_def Let_def rstrip_b64)
qed

text \<open>The triple generated from the sample entropy, with the stand-in digest.\<close>

theorem pkce_generator_witness:
  "code_verifier (generate_pkce_params ex_digest ex_entropy ex_entropy ex_client)
     = Some ''AQgPFh0kKzI5QEdOVVxjanF4f4aNlJuiqbC3vsXM09o''
   \<and> code_challenge (generate_pkce_params ex_digest ex_entropy ex_entropy ex_client)
     = Some ''KysrKysrKysrKysrKysrKysrKysrKysrKysrKysrKys''
   \<and> length ''AQgPFh0kKzI5QEdOVVxjanF4f4aNlJuiqbC3vsXM09o'' = 43
   \<and> ''KysrKysrKysrKysrKysrKysrKysrKysrKysrKysrKys''
       = base64url_nopad (ex_digest (encode_utf8 ''AQgPFh0kKzI5QEdOVVxjanF4f4aNlJuiqbC3vsXM09o''))"
proof -
  from pkce_generator[of ex_digest ex_entropy ex_entropy ex_client] obtain v ch where
    v: "code_verifier (generate_pkce_params ex_digest ex_entropy ex_entropy ex_client) = Some v"
    and ch: "code_challenge (generate_pkce_params ex_digest ex_entropy ex_entropy ex_client) = Some ch"
    and len: "length v = 43"
    and hash: "ch = base64url_nopad (ex_digest (encode_utf8 v))"
    by blast
  have v_eq: "v = ''AQgPFh0kKzI5QEdOVVxjanF4f4aNlJuiqbC3vsXM09o''"
    using v by (simp add: ex_generated)
  have ch_eq: "ch = ''KysrKysrKysrKysrKysrKysrKysrKysrKysrKysrKys''"
    using ch by (simp add: ex_generated)
  from v ch len hash show ?thesis
    unfolding v_eq ch_eq by blast
qed

subsection \<open>The exchange\<close>

text \<open>
  C4, as the code has it. An exchange whose received state differs from the stored one
  fails with the invalid-state error and sends nothing. An exchange with no verifier in
  flight also sends nothing: it fails with the invalid-state error when the state
  differs as well, and with the verifier-not-found error otherwise.
\<close>

theorem exchange_checks_before_network:
  "(Some received_state \<noteq> state self \<longrightarrow>
      exchange_code_for_token post authorization_code received_state self = (Inl InvalidState, []))
   \<and> (code_verifier self = None \<or> code_verifier self = Some [] \<longrightarrow>
      exchange_code_for_token post authorization_code received_state self
        = (if Some received_state \<noteq> state self then Inl InvalidState else Inl VerifierNotFound, []))"
  by (auto simp: exchange_code_for_token_def)

text \<open>
  A wrong state after a flow was started, and a matching state on a client that holds no
  verifier.
\<close>

theorem exchange_checks_before_network_witness:
  "exchange_code_for_token ex_issuer ''code'' ''wrong''
       (generate_pkce_params ex_digest ex_entropy ex_entropy ex_client)
     = (Inl InvalidState, [])
   \<and> exchange_code_for_token ex_issuer ''code'' ''s'' (ex_client\<lparr> state := Some ''s'' \<rparr>)
     = (Inl VerifierNotFound, [])"
proof -
  let ?started = "generate_pkce_params ex_digest ex_entropy ex_entropy ex_client"
  let ?no_verifier = "ex_client\<lparr> state := Some ''s'' \<rparr>"
  have a: "Some ''wrong'' \<noteq> state ?started"
    by (simp add: ex_generated)
  have b: "code_verifier ?no_verifier = None \<or> code_verifier ?no_verifier = Some []"
    by (simp add: ex_client_def GHLOAuthClient_init_def)
  have c: "\<not> Some ''s'' \<noteq> state ?no_verifier"
    by simp
  from exchange_checks_before_network[of "''wrong''" ?started ex_issuer "''code''"] a
  have 1: "exchange_code_for_token ex_issuer ''code'' ''wrong'' ?started = (Inl InvalidState, [])"
    by blast
  from exchange_checks_before_network[of "''s''" ?no_verifier ex_issuer "''code''"] b
  have "exchange_code_for_token ex_issuer ''code'' ''s'' ?no_verifier
     = (if Some ''s'' \<noteq> state ?no_verifier then Inl InvalidState else Inl VerifierNotFound, [])"
    by blast
  with c have 2: "exchange_code_for_token ex_issuer ''code'' ''s'' ?no_verifier
     = (Inl VerifierNotFound, [])"
    by simp
  from 1 2 show ?thesis by blast
qed

text \<open>
  C4 as stated fails on a client that has not started a flow: it holds no verifier, and
  the exchange fails with the invalid-state error, not the verifier-not-found one.
\<close>

theorem verifier_missing_counterexample:
  "exchange_code_for_token ex_issuer ''code'' ''xyz'' ex_client = (Inl InvalidState, [])
   \<and> code_verifier ex_client = None"
  by (simp add: exchange_code_for_token_def ex_client_def GHLOAuthClient_init_def)

subsection \<open>The authorization URL\<close>

text \<open>
  C9, as the code has it. For every input, an empty client id included, both builders
  return the authorization endpoint followed by a query string that reads back as
  \<open>response_type=code\<close>, the client id, the redirect URI, the scopes joined by
  spaces, the state, the code challenge and \<open>code_challenge_method=S256\<close>, in this
  order. Joining keeps the scopes and their order: splitting at the spaces gives the
  list back, provided the list is not empty and no scope holds a space.
\<close>

theorem authorization_url_carries_params:
  "(\<exists>q. provider_get_authorization_url cfg st challenge = GHL_AUTH_URL cfg @ ''?'' @ q
        \<and> parse_qsl q =
            [(''response_type'', ''code''),
             (''client_id'', CLIENT_ID cfg),
             (''redirect_uri'', REDIRECT_URI cfg),
             (''scope'', join '' '' (SCOPES cfg)),
             (''state'', st),
             (''code_challenge'', challenge),
             (''code_challenge_method'', ''S256'')])
   \<and> (\<exists>q self' st' challenge'.
        get_authorization_url sha256 entropy1 entropy2 scopes self = (auth_url self @ ''?'' @ q, self')
        \<and> self' = generate_pkce_params sha256 entropy1 entropy2 self
        \<and> state self' = Some st' \<and> code_challenge self' = Some challenge'
        \<and> parse_qsl q =
            [(''response_type'', ''code''),
             (''client_id'', client_id self),
             (''redirect_uri'', redirect_uri self),
             (''scope'', join '' '' (case scopes of None \<Rightarrow> default_scopes | Some l \<Rightarrow> l)),
             (''state'', st'),
             (''code_challenge'', challenge'),
             (''code_challenge_method'', ''S256'')])
   \<and> (\<forall>l. l \<noteq> [] \<and> (\<forall>s \<in> set l. CHR '' '' \<notin> set s) \<longrightarrow> split_on CHR '' '' (join '' '' l) = l)"
proof (intro conjI)
  show "\<exists>q. provider_get_authorization_url cfg st challenge = GHL_AUTH_URL cfg @ ''?'' @ q
        \<and> parse_qsl q =
            [(''response_type'', ''code''),
             (''client_id'', CLIENT_ID cfg),
             (''redirect_uri'', REDIRECT_URI cfg),
             (''scope'', join '' '' (SCOPES cfg)),
             (''state'', st),
             (''code_challenge'', challenge),
             (''code_challenge_method'', ''S256'')]"
    unfolding provider_get_authorization_url_def
    by (intro exI conjI, rule refl) (simp add: parse_qsl_urlencode authorization_params_def)
next
  let ?self = "generate_pkce_params sha256 entropy1 entropy2 self"
  have same: "auth_url ?self = auth_url self" "client_id ?self = client_id self"
    "redirect_uri ?self = redirect_uri self"
    by (simp_all add: generate_pkce_params_def Let_def)
  obtain st' ch' where fresh: "state ?self = Some st'" "code_challenge ?self = Some ch'"
    by (simp add: generate_pkce_params_def Let_def)
  have "get_authorization_url sha256 entropy1 entropy2 scopes self
          = (auth_url self @ ''?'' @ urlencode (authorization_params (client_id self)
               (redirect_uri self) (case scopes of None \<Rightarrow> default_scopes | Some l \<Rightarrow> l) st' ch'),
             ?self)"
    by (simp add: get_authorization_url_def Let_def same fresh py_str_def)
  then show "\<exists>q self' st' challenge'.
        get_authorization_url sha256 entropy1 entropy2 scopes self = (auth_url self @ ''?'' @ q, self')
        \<and> self' = generate_pkce_params sha256 entropy1 entropy2 self
        \<and> state self' = Some st' \<and> code_challenge self' = Some challenge'
        \<and> parse_qsl q =
            [(''response_type'', ''code''),
             (''client_id'', client_id self),
             (''redirect_uri'', redirect_uri self),
             (''scope'', join '' '' (case scopes of None \<Rightarrow> default_scopes | Some l \<Rightarrow> l)),
             (''state'', st'),
             (''code_challenge'', challenge'),
             (''code_challenge_method'', ''S256'')]"
    using fresh by (simp add: parse_qsl_urlencode authorization_params_def)
next
  show "\<forall>l. l \<noteq> [] \<and> (\<forall>s \<in> set l. CHR '' '' \<notin> set s) \<longrightarrow> split_on CHR '' '' (join '' '' l) = l"
    using split_on_join[of _ "CHR '' ''"] by simp
qed

text \<open>The URL built from the sample configuration.\<close>

theorem authorization_url_carries_params_witness:
  "split_on CHR '' '' (join '' '' (SCOPES ex_cfg)) = SCOPES ex_cfg
   \<and> (\<exists>q. provider_get_authorization_url ex_cfg ''st'' ''ch'' = GHL_AUTH_URL ex_cfg @ ''?'' @ q
        \<and> parse_qsl q =
            [(''response_type'', ''code''),
             (''client_id'', ''cid''),
             (''redirect_uri'', ''http://localhost:8000/oauth/callback''),
             (''scope'', ''contacts.readonly contacts.write''),
             (''state'', ''st''),
             (''code_challenge'', ''ch''),
             (''code_challenge_method'', ''S256'')])"
proof -
  note t = authorization_url_carries_params[of ex_cfg "''st''" "''ch''" ex_digest ex_entropy
      ex_entropy None ex_client]
  have scopes: "SCOPES ex_cfg \<noteq> [] \<and> (\<forall>s \<in> set (SCOPES ex_cfg). CHR '' '' \<notin> set s)"
    by (simp add: ex_cfg_def)
  from t have "\<forall>l. l \<noteq> [] \<and> (\<forall>s \<in> set l. CHR '' '' \<notin> set s) \<longrightarrow> split_on CHR '' '' (join '' '' l) = l"
    by blast
  with scopes have 1: "split_on CHR '' '' (join '' '' (SCOPES ex_cfg)) = SCOPES ex_cfg"
    by blast
  from t have 2: "\<exists>q. provider_get_authorization_url ex_cfg ''st'' ''ch'' = GHL_AUTH_URL ex_cfg @ ''?'' @ q
        \<and> parse_qsl q =
            [(''response_type'', ''code''),
             (''client_id'', CLIENT_ID ex_cfg),
             (''redirect_uri'', REDIRECT_URI ex_cfg),
             (''scope'', join '' '' (SCOPES ex_cfg)),
             (''state'', ''st''),
             (''code_challenge'', ''ch''),
             (''code_challenge_method'', ''S256'')]"
    by blast
  from 1 2 show ?thesis by (simp add: ex_cfg_def)
qed

text \<open>
  C9 as stated fails: with an empty client id both builders return a URL, whose query has
  \<open>client_id=\<close> followed by nothing.
\<close>

theorem empty_client_id_counterexample:
  "provider_get_authorization_url (ex_cfg\<lparr> CLIENT_ID := '''' \<rparr>) ''st'' ''ch''
     = ''https://ghl.test/oauth/authorize?response_type=code&client_id=&redirect_uri=http%3A%2F%2Flocalhost%3A8000%2Foauth%2Fcallback&scope=contacts.readonly+contacts.write&state=st&code_challenge=ch&code_challenge_method=S256''
   \<and> fst (get_authorization_url ex_digest ex_entropy ex_entropy
            (Some [''contacts.readonly'', ''contacts.write'']) (ex_client\<lparr> client_id := '''' \<rparr>))
     = ''https://ghl.test/oauth/authorize?response_type=code&client_id=&redirect_uri=http%3A%2F%2Flocalhost%3A8000%2Foauth%2Fcallback&scope=contacts.readonly+contacts.write&state=AQgPFh0kKzI5QEdOVVxjanF4f4aNlJuiqbC3vsXM09o&code_challenge=KysrKysrKysrKysrKysrKysrKysrKysrKysrKysrKys&code_challenge_method=S256''"
  by (simp add: get_authorization_url_def Let_def ex_generated)
     code_simp+

end
